theory Spec2Isabelle
  imports Main "HOL-Library.Word"
begin

unbundle bit_operations_syntax

section \<open>The DFS backend of IOR (aiori-DFS.c)\<close>

text \<open>
  The file implements IOR's abstract I/O interface on top of the DAOS file system API.
  Every worker process runs the same functions; the storage engine (\<open>dfs_*\<close>,
  \<open>daos_*\<close>) and the collective substrate (\<open>MPI_*\<close>) are external. In the
  model each external call is a parameter that says what the call returned, every call
  a function issues is logged in a trace, and every way a function can stop other than
  by returning is a value of type \<open>fatal\<close>.
\<close>

subsection \<open>Common types\<close>

text \<open>\<open>IOR_offset_t\<close> is \<open>long long\<close>, \<open>daos_size_t\<close> and
  \<open>daos_off_t\<close> are \<open>uint64_t\<close>: both are 64-bit words, read signed
  (\<open>sint\<close>, \<open><s\<close>) or unsigned (\<open>unat\<close>, \<open><\<close>) as the C
  operation at hand does.\<close>

type_synonym IOR_offset_t = "64 word"
type_synonym daos_size_t = "64 word"

text \<open>How a function stops without returning: \<open>exit(-1)\<close> after a \<open>DCHECK\<close>
  that printed the status, a bare \<open>exit(-1)\<close>, the \<open>ERR\<close> macro, a failed
  \<open>assert\<close>, or a collective call that is never released.\<close>

datatype fatal =
    DCHECK_exit int string
  | Exit_minus1
  | ERR_abort string
  | Assert_failed string
  | Blocked_forever

text \<open>The macros of the file: both test \<open>_rc < 0\<close>; \<open>DCHECK\<close> exits,
  \<open>DERR\<close> jumps to the label \<open>out\<close>.\<close>

definition DCHECK :: "int \<Rightarrow> string \<Rightarrow> fatal option" where
  "DCHECK rc msg = (if rc < 0 then Some (DCHECK_exit rc msg) else None)"

definition DERR :: "int \<Rightarrow> bool" where
  "DERR rc = (rc < 0)"

text \<open>Modelled from the spec: the macros \<open>ERR\<close>, \<open>MPI_CHECK\<close> and
  \<open>WARN\<close> and the constants \<open>TRUE\<close>, \<open>WRITE\<close> and
  \<open>MAX_RETRY\<close> come from IOR's headers, which are not part of the file.
  \<open>ERR\<close> is fatal, \<open>MPI_CHECK\<close> is \<open>ERR\<close> when the MPI call did not
  succeed, \<open>WARN\<close> only logs. \<open>MAX_RETRY\<close> is a parameter of the transfer.\<close>

definition TRUE :: int where
  "TRUE = 1"

datatype 'a collective = Delivered 'a | Mpi_error int | Blocked

definition MPI_CHECK :: "'a collective \<Rightarrow> string \<Rightarrow> fatal + 'a" where
  "MPI_CHECK c msg =
     (case c of
        Delivered v \<Rightarrow> Inr v
      | Mpi_error e \<Rightarrow> Inl (ERR_abort msg)
      | Blocked \<Rightarrow> Inl Blocked_forever)"

subsection \<open>DFS_Xfer: the transfer loop\<close>

text \<open>The access codes of IOR (declared in its headers); \<open>DFS_Xfer\<close> writes for
  \<open>WRITE\<close> and reads for every other code.\<close>

datatype access = WRITE | WRITECHECK | READ | READCHECK

text \<open>The fields of \<open>IOR_param_t\<close> the file reads.\<close>

record IOR_param_t =
  offset :: IOR_offset_t
  singleXferAttempt :: int
  filePerProc :: int
  mode :: "32 word"

text \<open>The storage engine as the transfer sees it. \<open>dfs_write k\<close> is the status of
  the call issued in iteration \<open>k\<close> of the loop; \<open>dfs_read k\<close> is the status
  and the content of \<open>ret\<close> after the call of iteration \<open>k\<close> (whatever the
  engine stored there, or what was there before if it stored nothing).\<close>

record xfer_engine =
  dfs_write :: "nat \<Rightarrow> int"
  dfs_read :: "nat \<Rightarrow> int \<times> daos_size_t"

text \<open>One logged call: the file offset, the memory address and the length of the
  single iovec passed, and what came back.\<close>

datatype xfer_call =
    Write_call IOR_offset_t "64 word" "64 word" int
  | Read_call IOR_offset_t "64 word" "64 word" int daos_size_t

fun call_offset :: "xfer_call \<Rightarrow> IOR_offset_t" where
  "call_offset (Write_call off p n rc) = off"
| "call_offset (Read_call off p n rc r) = off"

fun call_ptr :: "xfer_call \<Rightarrow> 64 word" where
  "call_ptr (Write_call off p n rc) = p"
| "call_ptr (Read_call off p n rc r) = p"

fun call_len :: "xfer_call \<Rightarrow> 64 word" where
  "call_len (Write_call off p n rc) = n"
| "call_len (Read_call off p n rc r) = n"

text \<open>The value of \<open>ret\<close> after a call that the loop went on to account: the
  whole length for a write (\<open>ret = remaining\<close>), the reported count for a read.\<close>

fun call_ret :: "xfer_call \<Rightarrow> daos_size_t" where
  "call_ret (Write_call off p n rc) = n"
| "call_ret (Read_call off p n rc r) = r"

fun write_failed :: "xfer_call \<Rightarrow> bool" where
  "write_failed (Write_call off p n rc) = (rc \<noteq> 0)"
| "write_failed (Read_call off p n rc r) = False"

text \<open>The local variables of the loop. \<open>xferRetries\<close> is a C \<open>int\<close>; it
  goes up by one per iteration and the loop leaves once it is above \<open>MAX_RETRY\<close>
  after a short attempt, so it never exceeds \<open>MAX_RETRY + 2\<close> and is modelled
  without a bound.\<close>

record xfer_state =
  remaining :: "64 word"
  ptr :: "64 word"
  xferRetries :: int

datatype xfer_step =
    Continue xfer_state
  | Return_now IOR_offset_t
  | Stop fatal

text \<open>Lines 518 to 529: the checks after an attempt and the update of the locals.
  \<open>ret < remaining\<close> and \<open>ret <= remaining\<close> compare as unsigned 64-bit
  values (\<open>ret\<close> is \<open>uint64_t\<close>); \<open>assert(ret >= 0)\<close> cannot fail.
  Assertions are taken to be compiled in.\<close>

definition after_attempt :: "IOR_param_t \<Rightarrow> nat \<Rightarrow> xfer_state \<Rightarrow> daos_size_t \<Rightarrow> xfer_step" where
  "after_attempt param MAX_RETRY st ret =
     (if ret < remaining st \<and> singleXferAttempt param = TRUE then Stop Exit_minus1
      else if ret < remaining st \<and> xferRetries st > int MAX_RETRY
        then Stop (ERR_abort ''too many retries -- aborting'')
      else if \<not> ret \<le> remaining st then Stop (Assert_failed ''ret <= remaining'')
      else Continue \<lparr>remaining = remaining st - ret, ptr = ptr st + ret,
                     xferRetries = xferRetries st + 1\<rparr>)"

text \<open>Lines 495 to 529: one iteration of the loop. A failed write returns \<open>-1\<close>
  from the function; a failed or empty read only prints a message, and the iteration
  goes on with whatever \<open>ret\<close> holds. The messages are not part of the log.\<close>

definition xfer_attempt ::
  "xfer_engine \<Rightarrow> access \<Rightarrow> IOR_param_t \<Rightarrow> nat \<Rightarrow> xfer_state \<Rightarrow> xfer_call \<times> xfer_step" where
  "xfer_attempt eng acc param MAX_RETRY st =
     (if acc = WRITE then
        (let rc = dfs_write eng (nat (xferRetries st));
             c = Write_call (offset param) (ptr st) (remaining st) rc
         in if rc \<noteq> 0 then (c, Return_now (- 1))
            else (c, after_attempt param MAX_RETRY st (remaining st)))
      else
        (let (rc, ret) = dfs_read eng (nat (xferRetries st));
             c = Read_call (offset param) (ptr st) (remaining st) rc ret
         in (c, after_attempt param MAX_RETRY st ret)))"

text \<open>Lines 494 to 532: \<open>while (remaining > 0)\<close> (a signed comparison) around the
  iteration, then \<open>return (length)\<close> (\<open>len\<close> here). The result is the log of
  the calls issued and how the function ended. The loop terminates: an iteration that
  goes on either lowers \<open>remaining\<close> or, when nothing was moved, uses up one of the
  retries.\<close>

function xfer_loop ::
  "xfer_engine \<Rightarrow> access \<Rightarrow> IOR_param_t \<Rightarrow> nat \<Rightarrow> IOR_offset_t \<Rightarrow> xfer_state
     \<Rightarrow> xfer_call list \<times> (fatal + IOR_offset_t)" where
  "xfer_loop eng acc param MAX_RETRY len st =
     (if 0 <s remaining st then
        (case xfer_attempt eng acc param MAX_RETRY st of
           (c, Stop f) \<Rightarrow> ([c], Inl f)
         | (c, Return_now v) \<Rightarrow> ([c], Inr v)
         | (c, Continue st') \<Rightarrow>
             (case xfer_loop eng acc param MAX_RETRY len st' of
                (cs, r) \<Rightarrow> (c # cs, r)))
      else ([], Inr len))"
  by pat_completeness auto

termination
proof (relation "inv_image (less_than <*lex*> less_than)
         (\<lambda>(eng, acc, param, M, len, st).
            (unat (remaining st), nat (int M + 1 - xferRetries st)))", goal_cases)
  case 1
  show ?case by (intro wf_inv_image wf_lex_prod wf_less_than)
next
  case (2 eng acc param M len st c y st')
  from 2(2,3) have a: "xfer_attempt eng acc param M st = (c, Continue st')" by simp
  have f: "call_ret c \<le> remaining st" "remaining st' = remaining st - call_ret c"
    "xferRetries st' = xferRetries st + 1"
    "call_ret c < remaining st \<Longrightarrow> xferRetries st \<le> int M"
    using a
    by (auto simp: xfer_attempt_def after_attempt_def Let_def split: if_splits prod.splits)
  from 2(1) have nz: "remaining st \<noteq> 0" by auto
  show ?case
  proof (cases "call_ret c = 0")
    case True
    with nz have "call_ret c < remaining st" by (simp add: word_greater_zero_iff)
    with f(4) have "xferRetries st \<le> int M" by simp
    with True f(2,3) show ?thesis by simp
  next
    case False
    have "unat (remaining st - call_ret c) = unat (remaining st) - unat (call_ret c)"
      using f(1) by (simp add: unat_sub)
    moreover have "0 < unat (call_ret c)" using False by (simp add: unat_gt_0)
    moreover have "unat (call_ret c) \<le> unat (remaining st)"
      using f(1) by (simp add: word_le_nat_alt)
    ultimately show ?thesis using f(2) by simp
  qed
qed

declare xfer_loop.simps [simp del]

text \<open>Lines 481 to 533. \<open>buffer\<close> is the address the buffer starts at; the
  session handle \<open>dfs\<close> and the object \<open>file\<close> are passed unchanged to every
  call and are left out of the log.\<close>

definition DFS_Xfer ::
  "xfer_engine \<Rightarrow> nat \<Rightarrow> access \<Rightarrow> 64 word \<Rightarrow> IOR_offset_t \<Rightarrow> IOR_param_t
     \<Rightarrow> xfer_call list \<times> (fatal + IOR_offset_t)" where
  "DFS_Xfer eng MAX_RETRY acc buffer len param =
     xfer_loop eng acc param MAX_RETRY len
       \<lparr>remaining = len, ptr = buffer, xferRetries = 0\<rparr>"

subsection \<open>parse_filename: the path resolver\<close>

text \<open>Modelled from the spec: \<open>basename\<close> and \<open>dirname\<close> are the C library's
  (\<open>libgen.h\<close>), the "standard path decomposition" of the specification: trailing
  slashes do not count, a path of slashes only is the root, a path without a slash has
  the directory \<open>.\<close>, and the empty path gives \<open>.\<close> for both.\<close>

definition strip_slashes :: "string \<Rightarrow> string" where
  "strip_slashes s = rev (dropWhile (\<lambda>c. c = CHR ''/'') (rev s))"

definition basename :: "string \<Rightarrow> string" where
  "basename p =
     (if p = [] then ''.''
      else let t = strip_slashes p in
        if t = [] then ''/''
        else rev (takeWhile (\<lambda>c. c \<noteq> CHR ''/'') (rev t)))"

definition dirname :: "string \<Rightarrow> string" where
  "dirname p =
     (if p = [] then ''.''
      else let t = strip_slashes p in
        if t = [] then ''/''
        else let d = rev (dropWhile (\<lambda>c. c \<noteq> CHR ''/'') (rev t)) in
          if d = [] then ''.''
          else let d' = strip_slashes d in
            if d' = [] then ''/'' else d')"

text \<open>The values of \<open>errno.h\<close> the function returns negated.\<close>

definition EINVAL :: int where
  "EINVAL = 22"

definition ENOMEM :: int where
  "ENOMEM = 12"

text \<open>What the process environment answers: the working directory (\<open>None\<close> when
  \<open>getcwd\<close> fails) and, for each allocation of the function, whether it succeeds.\<close>

datatype alloc_site = Root_dup | F1_dup | F2_dup | Cwd_dup | New_dir | Cont_dup | Obj_dup

record penv =
  working_dir :: "string option"
  alloc_ok :: "alloc_site \<Rightarrow> bool"

text \<open>\<open>getcwd(cwd, 1024)\<close>: \<open>NULL\<close> when the directory and its terminator do not
  fit in 1024 bytes.\<close>

definition getcwd :: "penv \<Rightarrow> string option" where
  "getcwd env =
     (case working_dir env of
        None \<Rightarrow> None
      | Some d \<Rightarrow> if length d < 1024 then Some d else None)"

text \<open>\<open>cont_name[0]\<close>: the first character, the terminator for an empty string.\<close>

definition first_char :: "string \<Rightarrow> char option" where
  "first_char s = (case s of [] \<Rightarrow> None | c # cs \<Rightarrow> Some c)"

text \<open>Lines 237 to 275: the parent of the path from its directory component.
  \<open>strcat(new_dir, &cont_name[1])\<close> appends the component without its first
  character.\<close>

definition resolve_cont_name :: "penv \<Rightarrow> string \<Rightarrow> int + string" where
  "resolve_cont_name env cont_name =
     (if first_char cont_name = Some CHR ''.'' \<or> first_char cont_name \<noteq> Some CHR ''/'' then
        (case getcwd env of
           None \<Rightarrow> Inl (- ENOMEM)
         | Some cwd \<Rightarrow>
             if cont_name = ''.'' then
               (if alloc_ok env Cwd_dup then Inr cwd else Inl (- ENOMEM))
             else if \<not> alloc_ok env New_dir then Inl (- ENOMEM)
             else if first_char cont_name = Some CHR ''.'' then Inr (cwd @ tl cont_name)
             else Inr (cwd @ ''/'' @ cont_name))
      else if alloc_ok env Cont_dup then Inr cont_name
      else Inl (- ENOMEM))"

text \<open>Lines 202 to 291. The result is the status and the contents of \<open>*_obj_name\<close>
  and \<open>*_cont_name\<close> afterwards; every caller passes the addresses of two locals that
  hold \<open>NULL\<close>, so of the three pointer tests only \<open>path == NULL\<close> can fire.\<close>

definition parse_filename :: "penv \<Rightarrow> string option \<Rightarrow> int \<times> string option \<times> string option" where
  "parse_filename env path =
     (case path of
        None \<Rightarrow> (- EINVAL, None, None)
      | Some p \<Rightarrow>
          if p = ''/'' then
            (if alloc_ok env Root_dup then (0, None, Some ''/'') else (- ENOMEM, None, None))
          else if \<not> alloc_ok env F1_dup then (- ENOMEM, None, None)
          else if \<not> alloc_ok env F2_dup then (- ENOMEM, None, None)
          else
            (let fname = basename p; cont_name = dirname p in
             case resolve_cont_name env cont_name of
               Inl rc \<Rightarrow> (rc, None, None)
             | Inr c \<Rightarrow>
                 if alloc_ok env Obj_dup then (0, Some fname, Some c)
                 else (- ENOMEM, None, None)))"

text \<open>The buffer \<open>new_dir\<close> of lines 252 to 265: the bytes \<open>calloc\<close> is asked
  for, and the bytes \<open>strcpy\<close> and \<open>strcat\<close> write into it, terminator
  included.\<close>

definition new_dir_size :: "string \<Rightarrow> string \<Rightarrow> nat" where
  "new_dir_size cwd cont_name = length cwd + length cont_name + 1"

definition new_dir_written :: "string \<Rightarrow> string \<Rightarrow> nat" where
  "new_dir_written cwd cont_name =
     (if first_char cont_name = Some CHR ''.'' then length (cwd @ tl cont_name) + 1
      else length (cwd @ ''/'' @ cont_name) + 1)"

subsection \<open>The namespace calls and the collective calls\<close>

text \<open>Object handles are numbers; a pointer to one is \<open>None\<close> when it is
  \<open>NULL\<close>. Open flags are a set (\<open>|=\<close> is union), the object class is the
  constant \<open>DAOS_OC_LARGE_RW\<close> or 0.\<close>

type_synonym dfs_obj_t = nat

datatype oflag = O_RDONLY | O_RDWR | O_CREAT | O_EXCL

datatype oclass = OC_0 | DAOS_OC_LARGE_RW

datatype mpi_op = MPI_SUM | MPI_MIN | MPI_MAX

definition S_IFREG :: "32 word" where
  "S_IFREG = 32768"

text \<open>What the storage engine answers to one worker: for a call that stores a handle
  or a size, the status and the content of the output variable afterwards.\<close>

record dfs_engine =
  dfs_lookup :: "string \<Rightarrow> oflag set \<Rightarrow> int \<times> dfs_obj_t option"
  dfs_open :: "dfs_obj_t option \<Rightarrow> string \<Rightarrow> 32 word \<Rightarrow> oflag set \<Rightarrow> oclass
                 \<Rightarrow> int \<times> dfs_obj_t option"
  dfs_stat :: "dfs_obj_t option \<Rightarrow> string option \<Rightarrow> int"
  dfs_get_size :: "dfs_obj_t option \<Rightarrow> int \<times> daos_size_t"
  dfs_umount :: int
  daos_cont_close :: int
  daos_cont_destroy :: int
  daos_fini :: int

text \<open>The log of one worker: the calls it issues, in order.\<close>

datatype event =
    Lookup_call string "oflag set"
  | Open_call "dfs_obj_t option" string "32 word" "oflag set" oclass
  | Stat_call "dfs_obj_t option" "string option"
  | Get_size_call "dfs_obj_t option"
  | Release_call dfs_obj_t
  | Release_null_call
  | Umount_call
  | Cont_close_call
  | Cont_destroy_call
  | Pool_disconnect_call
  | Fini_call
  | Barrier_call
  | Bcast_call int
  | Allreduce_call mpi_op "64 word"
  | Warn string

text \<open>\<open>if (parent) dfs_release(parent)\<close> at the label \<open>out\<close>.\<close>

definition release :: "dfs_obj_t option \<Rightarrow> event list" where
  "release parent = (case parent of None \<Rightarrow> [] | Some p \<Rightarrow> [Release_call p])"

text \<open>\<open>dfs_release(obj)\<close> with no test of the pointer, as at line 614.\<close>

definition release_unchecked :: "dfs_obj_t option \<Rightarrow> event list" where
  "release_unchecked obj =
     (case obj of None \<Rightarrow> [Release_null_call] | Some p \<Rightarrow> [Release_call p])"

subsection \<open>DFS_Create\<close>

text \<open>Lines 391 to 438, for the worker \<open>rank\<close>. \<open>barrier\<close> is what
  \<open>MPI_Barrier\<close> does when the worker calls it. The result is the pointer returned.
  A status below 0 from \<open>parse_filename\<close>, \<open>dfs_lookup\<close> or \<open>dfs_open\<close>
  jumps to \<open>out\<close>: the function returns without calling the barrier.\<close>

definition DFS_Create ::
  "nat \<Rightarrow> penv \<Rightarrow> dfs_engine \<Rightarrow> unit collective \<Rightarrow> string option \<Rightarrow> IOR_param_t
     \<Rightarrow> event list \<times> (fatal + dfs_obj_t option)" where
  "DFS_Create rank env eng barrier testFileName param =
     (case parse_filename env testFileName of (rc, name, dir_name) \<Rightarrow>
        if DERR rc then ([], Inr None)
        else case dir_name of
          None \<Rightarrow> ([], Inl (Assert_failed ''dir_name''))
        | Some d \<Rightarrow>
        (case name of
          None \<Rightarrow> ([], Inl (Assert_failed ''name''))
        | Some n \<Rightarrow>
        (case dfs_lookup eng d {O_RDWR} of (rc, parent) \<Rightarrow>
           let t1 = [Lookup_call d {O_RDWR}] in
           if DERR rc then (t1 @ release parent, Inr None)
           else
             let m = S_IFREG OR mode param in
             if filePerProc param \<noteq> 0 \<or> rank = 0 then
               (let fd_oflag = {O_CREAT, O_RDWR, O_EXCL};
                    t2 = t1 @ [Open_call parent n m fd_oflag DAOS_OC_LARGE_RW]
                in case dfs_open eng parent n m fd_oflag DAOS_OC_LARGE_RW of (rc, obj) \<Rightarrow>
                  if DERR rc then (t2 @ release parent, Inr obj)
                  else
                    (case MPI_CHECK barrier ''barrier error'' of
                       Inl f \<Rightarrow> (t2 @ [Barrier_call], Inl f)
                     | Inr u \<Rightarrow> (t2 @ [Barrier_call] @ release parent, Inr obj)))
             else
               (case MPI_CHECK barrier ''barrier error'' of
                  Inl f \<Rightarrow> (t1 @ [Barrier_call], Inl f)
                | Inr u \<Rightarrow>
                    (let fd_oflag = {O_RDWR};
                         t2 = t1 @ [Barrier_call,
                                    Open_call parent n m fd_oflag DAOS_OC_LARGE_RW]
                     in case dfs_open eng parent n m fd_oflag DAOS_OC_LARGE_RW of
                          (rc, obj) \<Rightarrow> (t2 @ release parent, Inr obj))))))"

text \<open>Modelled from the spec: the barrier "blocks all participants until all have
  arrived". A run of \<open>N\<close> workers, worker \<open>r\<close> with its own environment and
  engine answers: the barrier is released when every worker reaches it, and blocks the
  workers that reach it for ever otherwise.\<close>

definition reaches_barrier :: "event list \<times> (fatal + dfs_obj_t option) \<Rightarrow> bool" where
  "reaches_barrier res = (Barrier_call \<in> set (fst res))"

definition DFS_Create_run ::
  "nat \<Rightarrow> (nat \<Rightarrow> penv) \<Rightarrow> (nat \<Rightarrow> dfs_engine) \<Rightarrow> string option \<Rightarrow> IOR_param_t
     \<Rightarrow> (event list \<times> (fatal + dfs_obj_t option)) list" where
  "DFS_Create_run N env eng testFileName param =
     (let arrived = list_all
            (\<lambda>r. reaches_barrier (DFS_Create r (env r) (eng r) (Delivered ()) testFileName param))
            [0..<N];
          barrier = (if arrived then Delivered () else Blocked)
      in map (\<lambda>r. DFS_Create r (env r) (eng r) barrier testFileName param) [0..<N])"

text \<open>An exclusive create is an open call with \<open>O_CREAT\<close> and \<open>O_EXCL\<close>.\<close>

fun is_create :: "event \<Rightarrow> bool" where
  "is_create (Open_call parent n m fl cid) = (O_CREAT \<in> fl \<and> O_EXCL \<in> fl)"
| "is_create e = False"

subsection \<open>DFS_Access\<close>

text \<open>Lines 710 to 743; the argument \<open>mode\<close> is not used.\<close>

definition DFS_Access ::
  "penv \<Rightarrow> dfs_engine \<Rightarrow> string option \<Rightarrow> event list \<times> (fatal + int)" where
  "DFS_Access env eng path =
     (case parse_filename env path of (rc, name, dir_name) \<Rightarrow>
        if DERR rc then ([], Inr (if rc \<noteq> 0 then - 1 else rc))
        else case dir_name of
          None \<Rightarrow> ([], Inl (Assert_failed ''dir_name''))
        | Some d \<Rightarrow>
        (case dfs_lookup eng d {O_RDWR} of (rc, parent) \<Rightarrow>
           let t1 = [Lookup_call d {O_RDWR}] in
           if DERR rc then (t1 @ release parent, Inr (if rc \<noteq> 0 then - 1 else rc))
           else
             let name' = (if name = Some ''.'' then None else name);
                 rc = dfs_stat eng parent name'
             in (t1 @ [Stat_call parent name'] @ release parent,
                 Inr (if rc \<noteq> 0 then - 1 else rc))))"

subsection \<open>DFS_GetFileSize\<close>

text \<open>Lines 597 to 638, for the worker \<open>rank\<close>. \<open>allreduce op v\<close> is what
  \<open>MPI_Allreduce\<close> does with the contribution \<open>v\<close>. The early returns leave
  before any collective call; the second one does not release the object. After both
  calls succeeded the object is released whatever the pointer holds.\<close>

definition DFS_GetFileSize ::
  "nat \<Rightarrow> dfs_engine \<Rightarrow> (mpi_op \<Rightarrow> 64 word \<Rightarrow> 64 word collective) \<Rightarrow> IOR_param_t \<Rightarrow> string
     \<Rightarrow> event list \<times> (fatal + IOR_offset_t)" where
  "DFS_GetFileSize rank eng allreduce test testFileName =
     (case dfs_lookup eng testFileName {O_RDONLY} of (rc, obj) \<Rightarrow>
        let t1 = [Lookup_call testFileName {O_RDONLY}] in
        if rc \<noteq> 0 then (t1, Inr (- 1))
        else case dfs_get_size eng obj of (rc, fsize) \<Rightarrow>
          let t2 = t1 @ [Get_size_call obj] in
          if rc \<noteq> 0 then (t2, Inr (- 1))
          else
            let t3 = t2 @ release_unchecked obj in
            if filePerProc test = TRUE then
              (case MPI_CHECK (allreduce MPI_SUM fsize) ''cannot total data moved'' of
                 Inl f \<Rightarrow> (t3 @ [Allreduce_call MPI_SUM fsize], Inl f)
               | Inr tmpSum \<Rightarrow> (t3 @ [Allreduce_call MPI_SUM fsize], Inr tmpSum))
            else
              (case MPI_CHECK (allreduce MPI_MIN fsize) ''cannot total data moved'' of
                 Inl f \<Rightarrow> (t3 @ [Allreduce_call MPI_MIN fsize], Inl f)
               | Inr tmpMin \<Rightarrow>
              (case MPI_CHECK (allreduce MPI_MAX fsize) ''cannot total data moved'' of
                 Inl f \<Rightarrow>
                   (t3 @ [Allreduce_call MPI_MIN fsize, Allreduce_call MPI_MAX fsize], Inl f)
               | Inr tmpMax \<Rightarrow>
                   let t4 = t3 @ [Allreduce_call MPI_MIN fsize, Allreduce_call MPI_MAX fsize]
                   in if tmpMin \<noteq> tmpMax then
                        (t4 @ (if rank = 0
                               then [Warn ''inconsistent file size by different tasks'']
                               else []),
                         Inr tmpMin)
                      else (t4, Inr fsize))))"

text \<open>Modelled from the spec: the all-reduce "blocks all participants until a combined
  value (sum, min or max) is available to all". The values are combined as
  \<open>MPI_LONG_LONG_INT\<close>: the sum wraps at 64 bits, minimum and maximum compare
  signed.\<close>

definition combine :: "mpi_op \<Rightarrow> 64 word \<Rightarrow> 64 word \<Rightarrow> 64 word" where
  "combine op a b =
     (case op of
        MPI_SUM \<Rightarrow> a + b
      | MPI_MIN \<Rightarrow> (if b <s a then b else a)
      | MPI_MAX \<Rightarrow> (if a <s b then b else a))"

fun MPI_Allreduce :: "mpi_op \<Rightarrow> 64 word list \<Rightarrow> 64 word" where
  "MPI_Allreduce op [] = 0"
| "MPI_Allreduce op [v] = v"
| "MPI_Allreduce op (v # w # vs) = combine op v (MPI_Allreduce op (w # vs))"

text \<open>The contribution of a worker: the value of its first all-reduce call, if it
  makes one.\<close>

fun contribution :: "event list \<Rightarrow> 64 word option" where
  "contribution [] = None"
| "contribution (Allreduce_call op v # es) = Some v"
| "contribution (e # es) = contribution es"

definition DFS_GetFileSize_run ::
  "nat \<Rightarrow> (nat \<Rightarrow> dfs_engine) \<Rightarrow> IOR_param_t \<Rightarrow> string
     \<Rightarrow> (event list \<times> (fatal + IOR_offset_t)) list" where
  "DFS_GetFileSize_run N eng test testFileName =
     (let sent = map (\<lambda>r. contribution
                   (fst (DFS_GetFileSize r (eng r) (\<lambda>op v. Delivered v) test testFileName)))
                 [0..<N];
          allreduce = (\<lambda>op v. if list_all (\<lambda>s. s \<noteq> None) sent
                                then Delivered (MPI_Allreduce op (map the sent))
                                else Blocked)
      in map (\<lambda>r. DFS_GetFileSize r (eng r) allreduce test testFileName) [0..<N])"

subsection \<open>DFS_Finalize\<close>

text \<open>Lines 357 to 386, for the worker \<open>rank\<close>; \<open>destroy\<close> is the option
  \<open>o.destroy\<close>. \<open>bcast v\<close> is what \<open>MPI_Bcast\<close> leaves in \<open>rc\<close> when
  the worker calls it with \<open>rc = v\<close>; its return value is not looked at, and a
  failed broadcast is taken to leave \<open>rc\<close> as it was. The return value of
  \<open>daos_pool_disconnect\<close> is not stored: the \<open>DCHECK\<close> after it tests the
  broadcast status again.\<close>

definition DFS_Finalize ::
  "nat \<Rightarrow> int \<Rightarrow> dfs_engine \<Rightarrow> (int \<Rightarrow> int collective) \<Rightarrow> event list \<times> (fatal + unit)" where
  "DFS_Finalize rank destroy eng bcast =
     (let rc = dfs_umount eng; t1 = [Umount_call] in
      case DCHECK rc ''Failed to umount DFS namespace'' of
        Some f \<Rightarrow> (t1, Inl f)
      | None \<Rightarrow>
     (let rc = daos_cont_close eng; t2 = t1 @ [Cont_close_call] in
      case DCHECK rc ''Failed to close container'' of
        Some f \<Rightarrow> (t2, Inl f)
      | None \<Rightarrow>
     (let (rc, t3) = (if rank = 0 \<and> destroy \<noteq> 0
                      then (daos_cont_destroy eng, t2 @ [Cont_destroy_call])
                      else (rc, t2));
          t4 = t3 @ [Bcast_call rc]
      in case bcast rc of
        Blocked \<Rightarrow> (t4, Inl Blocked_forever)
      | received \<Rightarrow>
     (let rc = (case received of Delivered v \<Rightarrow> v | other \<Rightarrow> rc) in
      case (if rc \<noteq> 0 then DCHECK rc ''Failed to destroy container'' else None) of
        Some f \<Rightarrow> (t4, Inl f)
      | None \<Rightarrow>
     (let t5 = t4 @ [Pool_disconnect_call] in
      case DCHECK rc ''Failed to disconnect from pool'' of
        Some f \<Rightarrow> (t5, Inl f)
      | None \<Rightarrow>
     (let rc = daos_fini eng; t6 = t5 @ [Fini_call] in
      case DCHECK rc ''Failed to finalize DAOS'' of
        Some f \<Rightarrow> (t6, Inl f)
      | None \<Rightarrow> (t6, Inr ())))))))"

text \<open>Modelled from the spec: the broadcast is "one-to-all, blocks all participants
  until the value is delivered". In a run of \<open>N\<close> workers every worker that reaches
  the broadcast receives the value worker 0 sends, provided all of them reach it.\<close>

fun sent_value :: "event list \<Rightarrow> int option" where
  "sent_value [] = None"
| "sent_value (Bcast_call v # es) = Some v"
| "sent_value (e # es) = sent_value es"

definition DFS_Finalize_run ::
  "nat \<Rightarrow> int \<Rightarrow> (nat \<Rightarrow> dfs_engine) \<Rightarrow> (event list \<times> (fatal + unit)) list" where
  "DFS_Finalize_run N destroy eng =
     (let sent = map (\<lambda>r. sent_value (fst (DFS_Finalize r destroy (eng r) Delivered)))
                 [0..<N];
          bcast = (\<lambda>v. if sent \<noteq> [] \<and> list_all (\<lambda>s. s \<noteq> None) sent
                        then Delivered (the (hd sent))
                        else Blocked)
      in map (\<lambda>r. DFS_Finalize r destroy (eng r) bcast) [0..<N])"

subsection \<open>Concrete inputs\<close>

text \<open>Parameters, engines and environments on which the properties below are
  evaluated.\<close>

definition example_param :: IOR_param_t where
  "example_param = \<lparr>offset = 64, singleXferAttempt = 0, filePerProc = 0, mode = 420\<rparr>"

definition short_reads :: xfer_engine where
  "short_reads = \<lparr>dfs_write = (\<lambda>k. 0), dfs_read = (\<lambda>k. if k = 0 then (0, 3) else (0, 5))\<rparr>"

definition one_byte_reads :: xfer_engine where
  "one_byte_reads = \<lparr>dfs_write = (\<lambda>k. 0), dfs_read = (\<lambda>k. (0, 1))\<rparr>"

definition failing_write :: xfer_engine where
  "failing_write = \<lparr>dfs_write = (\<lambda>k. - 5), dfs_read = (\<lambda>k. (0, 0))\<rparr>"

definition ok_env :: "string \<Rightarrow> penv" where
  "ok_env d = \<lparr>working_dir = Some d, alloc_ok = (\<lambda>s. True)\<rparr>"

definition example_engine :: "daos_size_t \<Rightarrow> int \<Rightarrow> dfs_engine" where
  "example_engine s d =
     \<lparr>dfs_lookup = (\<lambda>p fl. (0, Some 7)),
      dfs_open = (\<lambda>parent n m fl cid. (0, Some 9)),
      dfs_stat = (\<lambda>parent n. 0),
      dfs_get_size = (\<lambda>obj. (0, s)),
      dfs_umount = 0, daos_cont_close = 0, daos_cont_destroy = d, daos_fini = 0\<rparr>"

definition no_parent_engine :: dfs_engine where
  "no_parent_engine = (example_engine 0 0)\<lparr>dfs_lookup := (\<lambda>p fl. (- 1005, None))\<rparr>"

definition create_fails_engine :: dfs_engine where
  "create_fails_engine =
     (example_engine 0 0)
       \<lparr>dfs_open := (\<lambda>parent n m fl cid. if O_CREAT \<in> fl then (- 1004, None) else (0, Some 9))\<rparr>"

definition umount_fails_at_1 :: "nat \<Rightarrow> dfs_engine" where
  "umount_fails_at_1 r = (example_engine 0 0)\<lparr>dfs_umount := (if r = 1 then - 1 else 0)\<rparr>"

definition sized_engines :: "daos_size_t list \<Rightarrow> nat \<Rightarrow> dfs_engine" where
  "sized_engines sizes r = example_engine (sizes ! r) 0"

section \<open>Properties\<close>

subsection \<open>Signed and unsigned readings of a 64-bit word\<close>

lemma bit_top_nat:
  fixes m :: nat
  assumes "m < 2 * 2 ^ n"
  shows "bit m n \<longleftrightarrow> 2 ^ n \<le> m"
proof -
  have "m div 2 ^ n < 2" using assms by (simp add: less_mult_imp_div_less)
  then have "m div 2 ^ n = 0 \<or> m div 2 ^ n = 1" by arith
  moreover have "m div 2 ^ n = 0 \<longleftrightarrow> m < 2 ^ n" by (simp add: div_eq_0_iff)
  ultimately show ?thesis by (auto simp: bit_iff_odd)
qed

lemma sint_nonneg_iff_gen:
  fixes w :: "'a::len word"
  shows "0 \<le> sint w \<longleftrightarrow> unat w < 2 ^ (LENGTH('a) - 1)"
proof -
  obtain n where n: "LENGTH('a) = Suc n" by (cases "LENGTH('a)") simp_all
  have "unat w < 2 ^ LENGTH('a)" by (rule unsigned_less)
  then have b: "unat w < 2 * 2 ^ (LENGTH('a) - 1)" by (simp add: n)
  have "0 \<le> sint w \<longleftrightarrow> \<not> bit w (LENGTH('a) - 1)"
    by (simp add: sint_uint bit_uint_iff)
  also have "\<dots> \<longleftrightarrow> \<not> bit (unat w) (LENGTH('a) - 1)"
    by (simp add: bit_unsigned_iff)
  also have "\<dots> \<longleftrightarrow> unat w < 2 ^ (LENGTH('a) - 1)"
    using bit_top_nat [OF b] by auto
  finally show ?thesis .
qed

lemma sle0_iff: "0 \<le>s (w::64 word) \<longleftrightarrow> unat w < 2 ^ 63"
  using sint_nonneg_iff_gen [of w] by (simp add: word_sle_eq)

lemma sless0_iff: "0 <s (w::64 word) \<longleftrightarrow> w \<noteq> 0 \<and> unat w < 2 ^ 63"
  using sle0_iff [of w] by (auto simp: signed.less_le)

lemma sle0_sub:
  fixes a b :: "64 word"
  assumes "0 \<le>s a" "b \<le> a"
  shows "0 \<le>s a - b" and "unat (a - b) = unat a - unat b" and "unat b \<le> unat a"
proof -
  show le: "unat b \<le> unat a" using assms(2) by (simp add: word_le_nat_alt)
  show eq: "unat (a - b) = unat a - unat b" using assms(2) by (simp add: unat_sub)
  have "unat (a - b) \<le> unat a" using eq by simp
  moreover from assms(1) have "unat a < 2 ^ 63" by (simp only: sle0_iff)
  ultimately have "unat (a - b) < 2 ^ 63" by (rule le_less_trans)
  then show "0 \<le>s a - b" by (simp only: sle0_iff)
qed

lemma sint_eq_uint_nonneg:
  fixes w :: "'a::len word"
  assumes "0 \<le> sint w"
  shows "sint w = uint w"
proof -
  have "sint w < 2 ^ (LENGTH('a) - 1)" by (rule sint_lt)
  also have "(2::int) ^ (LENGTH('a) - 1) \<le> 2 ^ LENGTH('a)"
    by (rule power_increasing) simp_all
  finally have "take_bit LENGTH('a) (sint w) = sint w"
    using assms by (intro take_bit_int_eq_self)
  then show ?thesis by (simp add: uint_sint)
qed

lemma sle_unat:
  fixes a b :: "64 word"
  assumes "0 \<le>s a" and "0 \<le>s b"
  shows "a \<le>s b \<longleftrightarrow> unat a \<le> unat b"
proof -
  from assms have "sint a = uint a" "sint b = uint b"
    by (simp_all add: word_sle_eq sint_eq_uint_nonneg)
  then show ?thesis
    by (simp add: word_sle_eq word_le_nat_alt [symmetric] word_le_def)
qed

subsection \<open>DFS_Xfer\<close>

lemma after_attempt_Continue:
  assumes "after_attempt param M st ret = Continue st'"
  shows "ret \<le> remaining st"
    and "remaining st' = remaining st - ret"
    and "ptr st' = ptr st + ret"
    and "xferRetries st' = xferRetries st + 1"
    and "ret < remaining st \<Longrightarrow> xferRetries st \<le> int M"
    and "ret < remaining st \<Longrightarrow> singleXferAttempt param \<noteq> TRUE"
  using assms by (auto simp: after_attempt_def split: if_splits)

lemma xfer_attempt_Continue:
  assumes "xfer_attempt eng acc param M st = (c, Continue st')"
  shows "call_ret c \<le> remaining st"
    and "remaining st' = remaining st - call_ret c"
    and "ptr st' = ptr st + call_ret c"
    and "xferRetries st' = xferRetries st + 1"
    and "call_ret c < remaining st \<Longrightarrow> xferRetries st \<le> int M"
    and "call_offset c = offset param"
    and "call_ptr c = ptr st"
    and "call_len c = remaining st"
    and "\<not> write_failed c"
  using assms
  by (auto simp: xfer_attempt_def Let_def split: if_splits prod.splits
           dest: after_attempt_Continue)

lemma xfer_attempt_call:
  assumes "xfer_attempt eng acc param M st = (c, s)"
  shows "call_offset c = offset param" and "call_ptr c = ptr st" and "call_len c = remaining st"
  using assms by (auto simp: xfer_attempt_def Let_def split: if_splits prod.splits)

lemma xfer_attempt_Return_now:
  assumes "xfer_attempt eng acc param M st = (c, Return_now v)"
  shows "write_failed c" and "v = - 1"
  using assms
  by (auto simp: xfer_attempt_def after_attempt_def Let_def split: if_splits prod.splits)

lemma xfer_loop_cases:
  assumes "xfer_loop eng acc param M len st = (cs, r)"
  obtains (finished) "\<not> 0 <s remaining st" "cs = []" "r = Inr len"
  | (stopped) c f where "0 <s remaining st" "xfer_attempt eng acc param M st = (c, Stop f)"
      "cs = [c]" "r = Inl f"
  | (returned) c v where "0 <s remaining st" "xfer_attempt eng acc param M st = (c, Return_now v)"
      "cs = [c]" "r = Inr v"
  | (continued) c st' cs' where "0 <s remaining st"
      "xfer_attempt eng acc param M st = (c, Continue st')"
      "xfer_loop eng acc param M len st' = (cs', r)" "cs = c # cs'"
proof (cases "0 <s remaining st")
  case False
  with assms have "cs = []" "r = Inr len" by (simp_all add: xfer_loop.simps [of _ _ _ _ _ st])
  with that(1) False show ?thesis by simp
next
  case True
  obtain c s where a: "xfer_attempt eng acc param M st = (c, s)" by (cases "xfer_attempt eng acc param M st")
  show ?thesis
  proof (cases s)
    case (Continue st')
    obtain cs' r' where l: "xfer_loop eng acc param M len st' = (cs', r')"
      by (cases "xfer_loop eng acc param M len st'")
    have "xfer_loop eng acc param M len st = (c # cs', r')"
      using True a Continue l by (simp add: xfer_loop.simps [of _ _ _ _ _ st])
    with assms have "cs = c # cs'" "r = r'" by simp_all
    with that(4) True a Continue l show ?thesis by simp
  next
    case (Return_now v)
    have "xfer_loop eng acc param M len st = ([c], Inr v)"
      using True a Return_now by (simp add: xfer_loop.simps [of _ _ _ _ _ st])
    with assms have "cs = [c]" "r = Inr v" by simp_all
    with that(3) True a Return_now show ?thesis by simp
  next
    case (Stop f)
    have "xfer_loop eng acc param M len st = ([c], Inl f)"
      using True a Stop by (simp add: xfer_loop.simps [of _ _ _ _ _ st])
    with assms have "cs = [c]" "r = Inl f" by simp_all
    with that(2) True a Stop show ?thesis by simp
  qed
qed

lemma xfer_loop_calls:
  "xfer_loop eng acc param M len st = (cs, r) \<Longrightarrow> k < length cs \<Longrightarrow>
     call_offset (cs ! k) = offset param \<and>
     call_ptr (cs ! k) = ptr st + sum_list (map call_ret (take k cs)) \<and>
     call_len (cs ! k) = remaining st - sum_list (map call_ret (take k cs))"
proof (induction eng acc param M len st arbitrary: cs k rule: xfer_loop.induct)
  case (1 eng acc param M len st)
  from "1.prems"(1) show ?case
  proof (cases rule: xfer_loop_cases)
    case finished
    with "1.prems"(2) show ?thesis by simp
  next
    case (stopped c f)
    with "1.prems"(2) xfer_attempt_call [OF stopped(2)] show ?thesis by simp
  next
    case (returned c v)
    with "1.prems"(2) xfer_attempt_call [OF returned(2)] show ?thesis by simp
  next
    case (continued c st' cs')
    note call = xfer_attempt_call [OF continued(2)]
    note upd = xfer_attempt_Continue [OF continued(2)]
    show ?thesis
    proof (cases k)
      case 0
      with continued(4) call show ?thesis by simp
    next
      case (Suc j)
      with "1.prems"(2) continued(4) have j: "j < length cs'" by simp
      have "call_offset (cs' ! j) = offset param \<and>
            call_ptr (cs' ! j) = ptr st' + sum_list (map call_ret (take j cs')) \<and>
            call_len (cs' ! j) = remaining st' - sum_list (map call_ret (take j cs'))"
        using "1.IH" [OF continued(1) continued(2) [symmetric] refl continued(3) j] .
      with Suc continued(4) upd(2,3) show ?thesis by (simp add: algebra_simps)
    qed
  qed
qed

lemma xfer_loop_Inr:
  "xfer_loop eng acc param M len st = (cs, Inr v) \<Longrightarrow> \<forall>c\<in>set cs. \<not> write_failed c \<Longrightarrow>
   0 \<le>s remaining st \<Longrightarrow>
     v = len \<and> sum_list (map (\<lambda>c. unat (call_ret c)) cs) = unat (remaining st) \<and>
     (\<forall>c\<in>set cs. call_ret c \<le> call_len c)"
proof (induction eng acc param M len st arbitrary: cs rule: xfer_loop.induct)
  case (1 eng acc param M len st)
  from "1.prems"(1) show ?case
  proof (cases rule: xfer_loop_cases)
    case finished
    from finished(1) "1.prems"(3) have "remaining st = 0"
      by (simp add: signed.less_le)
    with finished show ?thesis by simp
  next
    case (stopped c f)
    then show ?thesis by simp
  next
    case (returned c v')
    with xfer_attempt_Return_now(1) [OF returned(2)] "1.prems"(2) show ?thesis by simp
  next
    case (continued c st' cs')
    note upd = xfer_attempt_Continue [OF continued(2)]
    note sub = sle0_sub [OF "1.prems"(3) upd(1)]
    from "1.prems"(2) continued(4) have nf: "\<forall>c\<in>set cs'. \<not> write_failed c" by simp
    from sub(1) upd(2) have nn: "0 \<le>s remaining st'" by simp
    have ih: "v = len \<and> sum_list (map (\<lambda>c. unat (call_ret c)) cs') = unat (remaining st') \<and>
      (\<forall>c\<in>set cs'. call_ret c \<le> call_len c)"
      using "1.IH" [OF continued(1) continued(2) [symmetric] refl continued(3) nf nn] .
    have "call_ret c \<le> call_len c" using upd(1,8) by simp
    moreover have "unat (call_ret c) + unat (remaining st') = unat (remaining st)"
      using sub(2,3) upd(2) by simp
    ultimately show ?thesis using ih continued(4) by simp
  qed
qed

text \<open>C8. A transfer of length 0 returns 0 at once: the log of engine calls is empty,
  whatever the access code, the engine, the retry bound and the parameters (so also
  the single-attempt flag) are.\<close>

theorem DFS_Xfer_zero_length:
  "DFS_Xfer eng MAX_RETRY acc buffer 0 param = ([], Inr 0)"
  by (simp add: DFS_Xfer_def xfer_loop.simps)

text \<open>C2. A transfer of a length \<open>len \<ge> 0\<close> that returns, and in which no
  write call failed, returns \<open>len\<close>; the counts accounted over its attempts add up
  to \<open>len\<close>; and each attempt was asked for exactly the count still remaining
  (\<open>len\<close> less the counts accounted before it) and accounted no more than that.\<close>

theorem DFS_Xfer_accounting:
  assumes "DFS_Xfer eng MAX_RETRY acc buffer len param = (cs, Inr v)"
    and "\<forall>c\<in>set cs. \<not> write_failed c"
    and "0 \<le>s len"
  shows "v = len \<and>
         sum_list (map (\<lambda>c. unat (call_ret c)) cs) = unat len \<and>
         (\<forall>k<length cs. call_len (cs ! k) = len - sum_list (map call_ret (take k cs)) \<and>
                         call_ret (cs ! k) \<le> call_len (cs ! k))"
proof -
  let ?st = "\<lparr>remaining = len, ptr = buffer, xferRetries = 0\<rparr>"
  from assms(1) have l: "xfer_loop eng acc param MAX_RETRY len ?st = (cs, Inr v)"
    by (simp add: DFS_Xfer_def)
  from assms(3) have nn: "0 \<le>s remaining ?st" by simp
  note a = xfer_loop_Inr [OF l assms(2) nn]
  have "call_len (cs ! k) = len - sum_list (map call_ret (take k cs))" if "k < length cs" for k
    using xfer_loop_calls [OF l that] by simp
  moreover have "call_ret (cs ! k) \<le> call_len (cs ! k)" if "k < length cs" for k
    using a that by simp
  ultimately show ?thesis using a by simp
qed

theorem DFS_Xfer_accounting_witness:
  "DFS_Xfer short_reads 10000 READ 4096 8 example_param =
     ([Read_call 64 4096 8 0 3, Read_call 64 4099 5 0 5], Inr 8) \<and>
   sum_list (map (\<lambda>c. unat (call_ret c)) [Read_call 64 4096 8 0 3, Read_call 64 4099 5 0 5]) =
     unat (8 :: 64 word) \<and>
   call_ret (Read_call 64 4099 5 0 5) \<le> call_len (Read_call 64 4099 5 0 5)"
proof -
  let ?cs = "[Read_call 64 4096 8 0 3, Read_call 64 4099 5 0 5]"
  have run: "DFS_Xfer short_reads 10000 READ 4096 8 example_param = (?cs, Inr 8)"
    by (simp add: DFS_Xfer_def xfer_loop.simps xfer_attempt_def after_attempt_def
          short_reads_def example_param_def TRUE_def sless0_iff)
  have nf: "\<forall>c\<in>set ?cs. \<not> write_failed c" by simp
  have nn: "0 \<le>s (8 :: 64 word)" by (simp add: sle0_iff)
  from DFS_Xfer_accounting [OF run nf nn] run show ?thesis by simp
qed

text \<open>C9. Every call of one transfer, retries after a short read included, is issued at
  the file offset \<open>param->offset\<close>; from attempt to attempt only the memory address
  (the buffer plus the counts accounted so far) and the length (the request less those
  counts) change. The parameters are read only: the model passes them by value.\<close>

theorem DFS_Xfer_same_offset:
  assumes "DFS_Xfer eng MAX_RETRY acc buffer len param = (cs, r)"
  shows "\<forall>k<length cs.
           call_offset (cs ! k) = offset param \<and>
           call_ptr (cs ! k) = buffer + sum_list (map call_ret (take k cs)) \<and>
           call_len (cs ! k) = len - sum_list (map call_ret (take k cs))"
proof (intro allI impI)
  fix k assume k: "k < length cs"
  from assms have l: "xfer_loop eng acc param MAX_RETRY len
      \<lparr>remaining = len, ptr = buffer, xferRetries = 0\<rparr> = (cs, r)"
    by (simp add: DFS_Xfer_def)
  from xfer_loop_calls [OF l k]
  show "call_offset (cs ! k) = offset param \<and>
        call_ptr (cs ! k) = buffer + sum_list (map call_ret (take k cs)) \<and>
        call_len (cs ! k) = len - sum_list (map call_ret (take k cs))" by simp
qed

theorem DFS_Xfer_same_offset_witness:
  "DFS_Xfer short_reads 10000 READ 4096 8 example_param =
     ([Read_call 64 4096 8 0 3, Read_call 64 4099 5 0 5], Inr 8) \<and>
   call_offset ([Read_call 64 4096 8 0 3, Read_call 64 4099 5 0 5] ! 1) = offset example_param \<and>
   call_ptr ([Read_call 64 4096 8 0 3, Read_call 64 4099 5 0 5] ! 1) = 4096 + 3"
proof -
  let ?cs = "[Read_call 64 4096 8 0 3, Read_call 64 4099 5 0 5]"
  have run: "DFS_Xfer short_reads 10000 READ 4096 8 example_param = (?cs, Inr 8)"
    by (simp add: DFS_Xfer_def xfer_loop.simps xfer_attempt_def after_attempt_def
          short_reads_def example_param_def TRUE_def sless0_iff)
  have k: "1 < length ?cs" by simp
  from DFS_Xfer_same_offset [OF run, rule_format, OF k] run show ?thesis by simp
qed

text \<open>C4, as amended. A write transfer of a positive length issues one write call, for
  the whole length at \<open>param->offset\<close>. If that call fails (a status other than 0)
  the function returns \<open>-1\<close> at once, with no second call; it does not end the run
  itself. If it succeeds it is accounted as the whole remaining count and the function
  returns the length.\<close>

theorem DFS_Xfer_write_once:
  assumes "0 <s len"
  shows "DFS_Xfer eng MAX_RETRY WRITE buffer len param =
           ([Write_call (offset param) buffer len (dfs_write eng 0)],
            Inr (if dfs_write eng 0 \<noteq> 0 then - 1 else len))"
proof (cases "dfs_write eng 0 = 0")
  case True
  let ?st = "\<lparr>remaining = len, ptr = buffer, xferRetries = 0\<rparr>"
  let ?st' = "\<lparr>remaining = 0, ptr = buffer + len, xferRetries = 1\<rparr>"
  have "xfer_attempt eng WRITE param MAX_RETRY ?st =
          (Write_call (offset param) buffer len 0, Continue ?st')"
    using True by (simp add: xfer_attempt_def after_attempt_def)
  moreover have "xfer_loop eng WRITE param MAX_RETRY len ?st' = ([], Inr len)"
    by (simp add: xfer_loop.simps)
  ultimately show ?thesis using assms True
    by (simp add: DFS_Xfer_def xfer_loop.simps [of _ _ _ _ _ ?st])
next
  case False
  let ?st = "\<lparr>remaining = len, ptr = buffer, xferRetries = 0\<rparr>"
  have "xfer_attempt eng WRITE param MAX_RETRY ?st =
          (Write_call (offset param) buffer len (dfs_write eng 0), Return_now (- 1))"
    using False by (simp add: xfer_attempt_def)
  then show ?thesis using assms False
    by (simp add: DFS_Xfer_def xfer_loop.simps [of _ _ _ _ _ ?st])
qed

theorem DFS_Xfer_write_once_witness:
  "0 <s (8 :: 64 word) \<and>
   DFS_Xfer short_reads 10000 WRITE 4096 8 example_param = ([Write_call 64 4096 8 0], Inr 8)"
proof -
  have h: "0 <s (8 :: 64 word)" by (simp add: sless0_iff)
  from DFS_Xfer_write_once [OF h, of short_reads 10000 4096 example_param] h
  show ?thesis by (simp add: short_reads_def example_param_def)
qed

text \<open>C4 as stated fails: a write call that fails does not end the run inside
  \<open>DFS_Xfer\<close>; the function returns \<open>-1\<close> to its caller.\<close>

theorem DFS_Xfer_write_failure_returns:
  "DFS_Xfer failing_write 10000 WRITE 4096 8 example_param =
     ([Write_call 64 4096 8 (- 5)], Inr (- 1))"
  by (simp add: DFS_Xfer_def xfer_loop.simps xfer_attempt_def after_attempt_def
        failing_write_def example_param_def TRUE_def sless0_iff)

lemma xfer_loop_all_short:
  assumes acc: "acc \<noteq> WRITE" and ns: "singleXferAttempt param \<noteq> TRUE"
    and short: "\<forall>k\<le>M + 1. (\<Sum>i\<le>k. unat (snd (dfs_read eng i))) < unat len"
    and pos: "0 \<le>s len"
  shows "j \<le> M + 1 \<Longrightarrow> xferRetries st = int j \<Longrightarrow>
         unat (remaining st) + (\<Sum>i<j. unat (snd (dfs_read eng i))) = unat len \<Longrightarrow>
         snd (xfer_loop eng acc param M len st) = Inl (ERR_abort ''too many retries -- aborting'') \<and>
         length (fst (xfer_loop eng acc param M len st)) = M + 2 - j"
proof (induction "M + 1 - j" arbitrary: j st)
  case 0
  then have j: "j = M + 1" by simp
  then have gt: "M < j" by simp
  define ret where "ret = snd (dfs_read eng j)"
  from short "0.prems"(1) have "(\<Sum>i\<le>j. unat (snd (dfs_read eng i))) < unat len" by simp
  then have "(\<Sum>i<j. unat (snd (dfs_read eng i))) + unat ret < unat len"
    by (simp add: ret_def flip: lessThan_Suc_atMost)
  with "0.prems"(3) have lt: "unat ret < unat (remaining st)" by simp
  then have short_j: "ret < remaining st" by (simp add: word_less_nat_alt)
  from lt "0.prems"(3) pos have "0 <s remaining st"
    by (auto simp: sless0_iff sle0_iff)
  moreover have "xfer_attempt eng acc param M st =
      (Read_call (offset param) (ptr st) (remaining st) (fst (dfs_read eng j)) ret,
       Stop (ERR_abort ''too many retries -- aborting''))"
    using acc ns short_j gt "0.prems"(2)
    by (simp add: xfer_attempt_def after_attempt_def ret_def case_prod_beta)
  ultimately show ?case using j by (simp add: xfer_loop.simps [of _ _ _ _ _ st])
next
  case (Suc n)
  then have j: "j \<le> M" "n = M + 1 - Suc j" by simp_all
  define ret where "ret = snd (dfs_read eng j)"
  define st' where "st' = \<lparr>remaining = remaining st - ret, ptr = ptr st + ret,
                     xferRetries = xferRetries st + 1\<rparr>"
  from short Suc.prems(1) have "(\<Sum>i\<le>j. unat (snd (dfs_read eng i))) < unat len" by simp
  then have s: "(\<Sum>i<j. unat (snd (dfs_read eng i))) + unat ret < unat len"
    by (simp add: ret_def flip: lessThan_Suc_atMost)
  with Suc.prems(3) have lt: "unat ret < unat (remaining st)" by simp
  then have short_j: "ret < remaining st" by (simp add: word_less_nat_alt)
  from lt Suc.prems(3) pos have p: "0 <s remaining st"
    by (auto simp: sless0_iff sle0_iff)
  have a: "xfer_attempt eng acc param M st =
      (Read_call (offset param) (ptr st) (remaining st) (fst (dfs_read eng j)) ret,
       Continue st')"
    using acc ns short_j j(1) Suc.prems(2)
    by (simp add: xfer_attempt_def after_attempt_def ret_def st'_def case_prod_beta)
  have "unat (remaining st - ret) = unat (remaining st) - unat ret"
    using short_j by (simp add: unat_sub)
  with lt Suc.prems(3) have
    "unat (remaining st') + (\<Sum>i<Suc j. unat (snd (dfs_read eng i))) = unat len"
    by (simp add: st'_def ret_def)
  moreover have "xferRetries st' = int (Suc j)" using Suc.prems(2) by (simp add: st'_def)
  moreover have "Suc j \<le> M + 1" using j by simp
  ultimately have ih:
    "snd (xfer_loop eng acc param M len st') = Inl (ERR_abort ''too many retries -- aborting'') \<and>
     length (fst (xfer_loop eng acc param M len st')) = M + 2 - Suc j"
    using Suc.hyps(1) [OF j(2)] by blast
  show ?case using p a ih j(1)
    by (simp add: xfer_loop.simps [of _ _ _ _ _ st] case_prod_beta)
qed

text \<open>C3. After an attempt that moved fewer bytes than remained: with the single-attempt
  flag the run ends (\<open>exit(-1)\<close>); otherwise, if the retry counter is above
  \<open>MAX_RETRY\<close> the transfer ends in \<open>ERR("too many retries -- aborting")\<close>, and
  if not the counter goes up by one and the loop goes on. Hence a read whose counts,
  added up over the first \<open>MAX_RETRY + 2\<close> attempts, stay below the length does not
  return: it ends fatally, after one attempt with the single-attempt flag and after
  \<open>MAX_RETRY + 2\<close> attempts without it.\<close>

theorem DFS_Xfer_short_attempts:
  "(\<forall>(st::xfer_state) ret. ret < remaining st \<longrightarrow>
      after_attempt param MAX_RETRY st ret =
        (if singleXferAttempt param = TRUE then Stop Exit_minus1
         else if int MAX_RETRY < xferRetries st
           then Stop (ERR_abort ''too many retries -- aborting'')
         else Continue \<lparr>remaining = remaining st - ret, ptr = ptr st + ret,
                        xferRetries = xferRetries st + 1\<rparr>)) \<and>
   (acc \<noteq> WRITE \<and> 0 \<le>s len \<and>
    (\<forall>k\<le>MAX_RETRY + 1. (\<Sum>i\<le>k. unat (snd (dfs_read eng i))) < unat len) \<longrightarrow>
      snd (DFS_Xfer eng MAX_RETRY acc buffer len param) =
        Inl (if singleXferAttempt param = TRUE then Exit_minus1
             else ERR_abort ''too many retries -- aborting'') \<and>
      length (fst (DFS_Xfer eng MAX_RETRY acc buffer len param)) =
        (if singleXferAttempt param = TRUE then 1 else MAX_RETRY + 2))"
proof (intro conjI allI impI)
  fix st :: xfer_state and ret assume "ret < remaining st"
  then have "ret < remaining st \<and> ret \<le> remaining st" by simp
  then show "after_attempt param MAX_RETRY st ret =
        (if singleXferAttempt param = TRUE then Stop Exit_minus1
         else if int MAX_RETRY < xferRetries st
           then Stop (ERR_abort ''too many retries -- aborting'')
         else Continue \<lparr>remaining = remaining st - ret, ptr = ptr st + ret,
                        xferRetries = xferRetries st + 1\<rparr>)"
    by (simp add: after_attempt_def)
next
  assume h: "acc \<noteq> WRITE \<and> 0 \<le>s len \<and>
    (\<forall>k\<le>MAX_RETRY + 1. (\<Sum>i\<le>k. unat (snd (dfs_read eng i))) < unat len)"
  let ?st = "\<lparr>remaining = len, ptr = buffer, xferRetries = 0\<rparr>"
  let ?goal = "snd (DFS_Xfer eng MAX_RETRY acc buffer len param) =
        Inl (if singleXferAttempt param = TRUE then Exit_minus1
             else ERR_abort ''too many retries -- aborting'') \<and>
      length (fst (DFS_Xfer eng MAX_RETRY acc buffer len param)) =
        (if singleXferAttempt param = TRUE then 1 else MAX_RETRY + 2)"
  have g: ?goal
  proof (cases "singleXferAttempt param = TRUE")
    case True
    from h have "(\<Sum>i\<le>0. unat (snd (dfs_read eng i))) < unat len" by blast
    then have lt: "snd (dfs_read eng 0) < len" by (simp add: word_less_nat_alt)
    then have "len \<noteq> 0" by auto
    with h have p: "0 <s len" by (simp add: signed.less_le)
    have "xfer_attempt eng acc param MAX_RETRY ?st =
      (Read_call (offset param) buffer len (fst (dfs_read eng 0)) (snd (dfs_read eng 0)),
       Stop Exit_minus1)"
      using h True lt by (simp add: xfer_attempt_def after_attempt_def case_prod_beta)
    with p True show ?thesis
      by (simp add: DFS_Xfer_def xfer_loop.simps [of _ _ _ _ _ ?st])
  next
    case False
    from h have 1: "acc \<noteq> WRITE" and 2: "0 \<le>s len"
      and 3: "\<forall>k\<le>MAX_RETRY + 1. (\<Sum>i\<le>k. unat (snd (dfs_read eng i))) < unat len"
      by simp_all
    from xfer_loop_all_short [OF 1 False 3 2, of 0 ?st] False
    show ?thesis by (simp add: DFS_Xfer_def)
  qed
  from g show "snd (DFS_Xfer eng MAX_RETRY acc buffer len param) =
        Inl (if singleXferAttempt param = TRUE then Exit_minus1
             else ERR_abort ''too many retries -- aborting'')" by simp
  from g show "length (fst (DFS_Xfer eng MAX_RETRY acc buffer len param)) =
        (if singleXferAttempt param = TRUE then 1 else MAX_RETRY + 2)" by simp
qed

theorem DFS_Xfer_short_attempts_witness:
  "after_attempt example_param 2 \<lparr>remaining = 100, ptr = 4096, xferRetries = 0\<rparr> 1 =
     Continue \<lparr>remaining = 99, ptr = 4097, xferRetries = 1\<rparr> \<and>
   after_attempt example_param 2 \<lparr>remaining = 97, ptr = 4099, xferRetries = 3\<rparr> 1 =
     Stop (ERR_abort ''too many retries -- aborting'') \<and>
   snd (DFS_Xfer one_byte_reads 2 READ 4096 100 example_param) =
     Inl (ERR_abort ''too many retries -- aborting'') \<and>
   length (fst (DFS_Xfer one_byte_reads 2 READ 4096 100 example_param)) = 4"
proof -
  have s0: "(1 :: 64 word) < remaining \<lparr>remaining = 100, ptr = 4096, xferRetries = 0\<rparr>"
    and s3: "(1 :: 64 word) < remaining \<lparr>remaining = 97, ptr = 4099, xferRetries = 3\<rparr>"
    by simp_all
  have h: "READ \<noteq> WRITE \<and> 0 \<le>s (100 :: 64 word) \<and>
    (\<forall>k\<le>2 + 1. (\<Sum>i\<le>k. unat (snd (dfs_read one_byte_reads i))) < unat (100 :: 64 word))"
    by (simp add: one_byte_reads_def sle0_iff)
  note t = DFS_Xfer_short_attempts [of example_param 2 READ 100 one_byte_reads 4096]
  from t [THEN conjunct1, rule_format, OF s0] t [THEN conjunct1, rule_format, OF s3]
    t [THEN conjunct2, rule_format, OF h]
  show ?thesis by (simp add: example_param_def TRUE_def)
qed

subsection \<open>parse_filename\<close>

lemma parse_example: "parse_filename (ok_env ''/w'') (Some ''/d/f'') = (0, Some ''f'', Some ''/d'')"
  by (simp add: parse_filename_def ok_env_def basename_def dirname_def strip_slashes_def
        resolve_cont_name_def first_char_def)

lemma parse_filename_root:
  "alloc_ok env Root_dup \<Longrightarrow> parse_filename env (Some ''/'') = (0, None, Some ''/'')"
  by (simp add: parse_filename_def)

lemma parse_filename_absolute:
  assumes "p \<noteq> ''/''" and "first_char (dirname p) = Some CHR ''/''"
    and "\<forall>s. alloc_ok env s"
  shows "parse_filename env (Some p) = (0, Some (basename p), Some (dirname p))"
  using assms by (simp add: parse_filename_def resolve_cont_name_def Let_def)

text \<open>The buffer \<open>new_dir\<close> is one byte short whenever the separator is
  inserted: the terminator written by the last \<open>strcat\<close> lies past its end.\<close>

lemma new_dir_one_byte_short:
  "first_char cont_name \<noteq> Some CHR ''.'' \<Longrightarrow>
     new_dir_written cwd cont_name = new_dir_size cwd cont_name + 1"
  by (simp add: new_dir_written_def new_dir_size_def)

text \<open>C6 fails on the code. For the path \<open>../f\<close> in the working directory
  \<open>/home/u\<close> the directory component is \<open>..\<close>, which is relative and not
  \<open>.\<close>; the parent computed is \<open>/home/u.\<close> (the component without its first
  character, appended with no separator), not \<open>/home/u/..\<close>. Likewise
  \<open>.hid/f\<close> gives the parent \<open>/home/uhid\<close>.\<close>

theorem parse_filename_parent_dir:
  "parse_filename (ok_env ''/home/u'') (Some ''../f'') = (0, Some ''f'', Some ''/home/u.'') \<and>
   dirname ''../f'' = ''..'' \<and>
   parse_filename (ok_env ''/home/u'') (Some ''.hid/f'') = (0, Some ''f'', Some ''/home/uhid'')"
  by (simp add: parse_filename_def ok_env_def basename_def dirname_def strip_slashes_def
        resolve_cont_name_def first_char_def getcwd_def)

subsection \<open>DFS_Create\<close>

lemma filter_concat_map_empty:
  "(\<And>r. r \<in> set rs \<Longrightarrow> filter P (g r) = []) \<Longrightarrow> filter P (concat (map g rs)) = []"
  by (induction rs) simp_all

lemma DERR_0 [simp]: "\<not> DERR 0"
  by (simp add: DERR_def)

lemma is_create_release [simp]: "filter is_create (release parent) = []"
  by (cases parent) (simp_all add: release_def)

lemma DFS_Create_peer_no_create:
  assumes "0 < rank" and "filePerProc param = 0"
  shows "filter is_create (fst (DFS_Create rank env eng barrier path param)) = []"
  using assms
  by (auto simp: DFS_Create_def Let_def MPI_CHECK_def case_prod_beta
           split: option.splits collective.splits)

lemma DFS_Create_coordinator_creates:
  assumes "parse_filename env path = (0, Some n, Some d)"
    and "\<not> DERR (fst (dfs_lookup eng d {O_RDWR}))"
  shows "filter is_create (fst (DFS_Create 0 env eng barrier path param)) =
           [Open_call (snd (dfs_lookup eng d {O_RDWR})) n (S_IFREG OR mode param)
              {O_CREAT, O_RDWR, O_EXCL} DAOS_OC_LARGE_RW]"
  using assms
  by (auto simp: DFS_Create_def Let_def MPI_CHECK_def case_prod_beta
           split: collective.splits)

lemma DFS_Create_coordinator_arrives:
  assumes "parse_filename env path = (0, Some n, Some d)"
    and "\<not> DERR (fst (dfs_lookup eng d {O_RDWR}))"
    and "\<not> DERR (fst (dfs_open eng (snd (dfs_lookup eng d {O_RDWR})) n (S_IFREG OR mode param)
              {O_CREAT, O_RDWR, O_EXCL} DAOS_OC_LARGE_RW))"
  shows "reaches_barrier (DFS_Create 0 env eng (Delivered ()) path param)"
  using assms
  by (simp add: DFS_Create_def Let_def MPI_CHECK_def reaches_barrier_def case_prod_beta)

lemma DFS_Create_peer_trace:
  assumes "0 < rank" and "filePerProc param = 0"
    and "parse_filename env path = (0, Some n, Some d)"
    and "\<not> DERR (fst (dfs_lookup eng d {O_RDWR}))"
  shows "fst (DFS_Create rank env eng (Delivered ()) path param) =
           [Lookup_call d {O_RDWR}, Barrier_call,
            Open_call (snd (dfs_lookup eng d {O_RDWR})) n (S_IFREG OR mode param)
              {O_RDWR} DAOS_OC_LARGE_RW]
           @ release (snd (dfs_lookup eng d {O_RDWR}))"
  using assms
  by (simp add: DFS_Create_def Let_def MPI_CHECK_def case_prod_beta)

lemma DFS_Create_run_nth:
  "r < N \<Longrightarrow> DFS_Create_run N env eng path param ! r =
     DFS_Create r (env r) (eng r)
       (if \<forall>q<N. reaches_barrier (DFS_Create q (env q) (eng q) (Delivered ()) path param)
        then Delivered () else Blocked) path param"
  by (auto simp: DFS_Create_run_def Let_def list_all_iff)

lemma DFS_Create_run_traces:
  "concat (map fst (DFS_Create_run N env eng path param)) =
   concat (map (\<lambda>r. fst (DFS_Create_run N env eng path param ! r)) [0..<N])"
proof -
  have "length (DFS_Create_run N env eng path param) = N"
    by (simp add: DFS_Create_run_def Let_def)
  then have "map fst (DFS_Create_run N env eng path param) =
    map (\<lambda>r. fst (DFS_Create_run N env eng path param ! r)) [0..<N]"
    by (intro nth_equalityI) simp_all
  then show ?thesis by simp
qed

lemma DFS_Create_coordinator_trace:
  assumes "parse_filename env path = (0, Some n, Some d)"
    and "\<not> DERR (fst (dfs_lookup eng d {O_RDWR}))"
    and "\<not> DERR (fst (dfs_open eng (snd (dfs_lookup eng d {O_RDWR})) n (S_IFREG OR mode param)
              {O_CREAT, O_RDWR, O_EXCL} DAOS_OC_LARGE_RW))"
  shows "fst (DFS_Create 0 env eng (Delivered ()) path param) =
           [Lookup_call d {O_RDWR},
            Open_call (snd (dfs_lookup eng d {O_RDWR})) n (S_IFREG OR mode param)
              {O_CREAT, O_RDWR, O_EXCL} DAOS_OC_LARGE_RW,
            Barrier_call]
           @ release (snd (dfs_lookup eng d {O_RDWR}))"
  using assms
  by (simp add: DFS_Create_def Let_def MPI_CHECK_def case_prod_beta)

lemma DFS_Create_peer_blocked:
  assumes "0 < rank" and "filePerProc param = 0"
    and "parse_filename env path = (0, Some n, Some d)"
    and "\<not> DERR (fst (dfs_lookup eng d {O_RDWR}))"
  shows "DFS_Create rank env eng Blocked path param =
           ([Lookup_call d {O_RDWR}, Barrier_call], Inl Blocked_forever)"
  using assms
  by (simp add: DFS_Create_def Let_def MPI_CHECK_def case_prod_beta)

text \<open>C1, as amended. With a shared file (\<open>filePerProc = 0\<close>) and more than one
  worker, when the coordinator (rank 0) resolves the path and finds the parent, the run
  issues exactly one exclusive create, and the coordinator issues it; no other worker
  creates. Every other worker that resolves the path and finds the parent calls the
  barrier before any open: while the barrier is not released its log ends with the
  barrier call. When every worker resolves the path and finds the parent and the
  coordinator's create succeeds, the coordinator calls the barrier after its create, and
  every other worker passes the barrier and then opens the same name under its parent
  handle without \<open>O_CREAT\<close> and \<open>O_EXCL\<close>.\<close>

theorem DFS_Create_one_creator:
  assumes N: "1 < N" and shared: "filePerProc param = 0"
    and parse0: "parse_filename (env 0) path = (0, Some n, Some d)"
    and look0: "\<not> DERR (fst (dfs_lookup (eng 0) d {O_RDWR}))"
  shows "filter is_create (concat (map fst (DFS_Create_run N env eng path param))) =
           [Open_call (snd (dfs_lookup (eng 0) d {O_RDWR})) n (S_IFREG OR mode param)
              {O_CREAT, O_RDWR, O_EXCL} DAOS_OC_LARGE_RW] \<and>
         filter is_create (fst (DFS_Create_run N env eng path param ! 0)) =
           [Open_call (snd (dfs_lookup (eng 0) d {O_RDWR})) n (S_IFREG OR mode param)
              {O_CREAT, O_RDWR, O_EXCL} DAOS_OC_LARGE_RW] \<and>
         (\<forall>r. 0 < r \<and> parse_filename (env r) path = (0, Some n, Some d) \<and>
               \<not> DERR (fst (dfs_lookup (eng r) d {O_RDWR})) \<longrightarrow>
               DFS_Create r (env r) (eng r) Blocked path param =
                 ([Lookup_call d {O_RDWR}, Barrier_call], Inl Blocked_forever)) \<and>
         ((\<forall>r<N. parse_filename (env r) path = (0, Some n, Some d) \<and>
                  \<not> DERR (fst (dfs_lookup (eng r) d {O_RDWR}))) \<and>
          \<not> DERR (fst (dfs_open (eng 0) (snd (dfs_lookup (eng 0) d {O_RDWR})) n
                         (S_IFREG OR mode param) {O_CREAT, O_RDWR, O_EXCL} DAOS_OC_LARGE_RW))
          \<longrightarrow> fst (DFS_Create_run N env eng path param ! 0) =
                 [Lookup_call d {O_RDWR},
                  Open_call (snd (dfs_lookup (eng 0) d {O_RDWR})) n (S_IFREG OR mode param)
                    {O_CREAT, O_RDWR, O_EXCL} DAOS_OC_LARGE_RW,
                  Barrier_call]
                 @ release (snd (dfs_lookup (eng 0) d {O_RDWR})) \<and>
               (\<forall>r. 0 < r \<and> r < N \<longrightarrow>
                 fst (DFS_Create_run N env eng path param ! r) =
                   [Lookup_call d {O_RDWR}, Barrier_call,
                    Open_call (snd (dfs_lookup (eng r) d {O_RDWR})) n (S_IFREG OR mode param)
                      {O_RDWR} DAOS_OC_LARGE_RW]
                   @ release (snd (dfs_lookup (eng r) d {O_RDWR}))))"
proof -
  let ?run = "DFS_Create_run N env eng path param"
  let ?create = "Open_call (snd (dfs_lookup (eng 0) d {O_RDWR})) n (S_IFREG OR mode param)
              {O_CREAT, O_RDWR, O_EXCL} DAOS_OC_LARGE_RW"
  from N have N0: "0 < N" by simp
  have c0: "filter is_create (fst (?run ! 0)) = [?create]"
    using DFS_Create_coordinator_creates [OF parse0 look0]
    by (simp only: DFS_Create_run_nth [OF N0])
  have peers: "filter is_create (fst (?run ! r)) = []" if "r \<in> set [1..<N]" for r
  proof -
    from that have r: "0 < r" "r < N" by simp_all
    show ?thesis
      using DFS_Create_peer_no_create [OF r(1) shared]
      by (simp only: DFS_Create_run_nth [OF r(2)])
  qed
  have "[0..<N] = 0 # [1..<N]" using N0 by (simp add: upt_conv_Cons)
  then have "filter is_create (concat (map fst ?run)) =
      filter is_create (fst (?run ! 0)) @
      filter is_create (concat (map (\<lambda>r. fst (?run ! r)) [1..<N]))"
    by (simp add: DFS_Create_run_traces)
  also have "\<dots> = [?create]"
    using c0 filter_concat_map_empty [of "[1..<N]" is_create "\<lambda>r. fst (?run ! r)"] peers
    by simp
  finally have all: "filter is_create (concat (map fst ?run)) = [?create]" .
  have blocked: "DFS_Create r (env r) (eng r) Blocked path param =
                 ([Lookup_call d {O_RDWR}, Barrier_call], Inl Blocked_forever)"
    if "0 < r \<and> parse_filename (env r) path = (0, Some n, Some d) \<and>
               \<not> DERR (fst (dfs_lookup (eng r) d {O_RDWR}))" for r
    using that DFS_Create_peer_blocked [of r param "env r" path n d "eng r"] shared by simp
  have released: "fst (?run ! 0) =
                 [Lookup_call d {O_RDWR}, ?create, Barrier_call]
                 @ release (snd (dfs_lookup (eng 0) d {O_RDWR})) \<and>
               (\<forall>r. 0 < r \<and> r < N \<longrightarrow>
                 fst (?run ! r) =
                   [Lookup_call d {O_RDWR}, Barrier_call,
                    Open_call (snd (dfs_lookup (eng r) d {O_RDWR})) n (S_IFREG OR mode param)
                      {O_RDWR} DAOS_OC_LARGE_RW]
                   @ release (snd (dfs_lookup (eng r) d {O_RDWR})))"
    if h: "(\<forall>r<N. parse_filename (env r) path = (0, Some n, Some d) \<and>
                  \<not> DERR (fst (dfs_lookup (eng r) d {O_RDWR}))) \<and>
          \<not> DERR (fst (dfs_open (eng 0) (snd (dfs_lookup (eng 0) d {O_RDWR})) n
                         (S_IFREG OR mode param) {O_CREAT, O_RDWR, O_EXCL} DAOS_OC_LARGE_RW))"
  proof -
    from h have create_ok:
      "\<not> DERR (fst (dfs_open (eng 0) (snd (dfs_lookup (eng 0) d {O_RDWR})) n
                         (S_IFREG OR mode param) {O_CREAT, O_RDWR, O_EXCL} DAOS_OC_LARGE_RW))"
      by simp
    have "reaches_barrier (DFS_Create q (env q) (eng q) (Delivered ()) path param)"
      if "q < N" for q
    proof (cases "q = 0")
      case True
      with DFS_Create_coordinator_arrives [OF parse0 look0 create_ok] show ?thesis by simp
    next
      case False
      with h that DFS_Create_peer_trace [of q param "env q" path n d "eng q"] shared
      show ?thesis by (simp add: reaches_barrier_def)
    qed
    then have run: "?run ! r = DFS_Create r (env r) (eng r) (Delivered ()) path param"
      if "r < N" for r
      using that by (simp add: DFS_Create_run_nth)
    have 0: "fst (?run ! 0) = [Lookup_call d {O_RDWR}, ?create, Barrier_call]
                 @ release (snd (dfs_lookup (eng 0) d {O_RDWR}))"
      using DFS_Create_coordinator_trace [OF parse0 look0 create_ok]
      by (simp only: run [OF N0])
    have "fst (?run ! r) =
                   [Lookup_call d {O_RDWR}, Barrier_call,
                    Open_call (snd (dfs_lookup (eng r) d {O_RDWR})) n (S_IFREG OR mode param)
                      {O_RDWR} DAOS_OC_LARGE_RW]
                   @ release (snd (dfs_lookup (eng r) d {O_RDWR}))"
      if r: "0 < r \<and> r < N" for r
    proof -
      from r have rN: "r < N" by simp
      from h r DFS_Create_peer_trace [of r param "env r" path n d "eng r"] shared
      show ?thesis by (simp only: run [OF rN]) simp
    qed
    with 0 show ?thesis by blast
  qed
  from all c0 blocked released show ?thesis by blast
qed

theorem DFS_Create_one_creator_witness:
  "filter is_create (concat (map fst
       (DFS_Create_run 3 (\<lambda>r. ok_env ''/w'') (\<lambda>r. example_engine 0 0) (Some ''/d/f'')
          example_param))) =
     [Open_call (Some 7) ''f'' (S_IFREG OR 420) {O_CREAT, O_RDWR, O_EXCL} DAOS_OC_LARGE_RW] \<and>
   DFS_Create 2 (ok_env ''/w'') (example_engine 0 0) Blocked (Some ''/d/f'') example_param =
     ([Lookup_call ''/d'' {O_RDWR}, Barrier_call], Inl Blocked_forever) \<and>
   fst (DFS_Create_run 3 (\<lambda>r. ok_env ''/w'') (\<lambda>r. example_engine 0 0) (Some ''/d/f'')
          example_param ! 0) =
     [Lookup_call ''/d'' {O_RDWR},
      Open_call (Some 7) ''f'' (S_IFREG OR 420) {O_CREAT, O_RDWR, O_EXCL} DAOS_OC_LARGE_RW,
      Barrier_call, Release_call 7] \<and>
   fst (DFS_Create_run 3 (\<lambda>r. ok_env ''/w'') (\<lambda>r. example_engine 0 0) (Some ''/d/f'')
          example_param ! 2) =
     [Lookup_call ''/d'' {O_RDWR}, Barrier_call,
      Open_call (Some 7) ''f'' (S_IFREG OR 420) {O_RDWR} DAOS_OC_LARGE_RW, Release_call 7]"
proof -
  let ?envs = "\<lambda>r::nat. ok_env ''/w''" and ?engs = "\<lambda>r::nat. example_engine 0 0"
  have N: "1 < (3::nat)" by simp
  have shared: "filePerProc example_param = 0" by (simp add: example_param_def)
  have parse0: "parse_filename (?envs 0) (Some ''/d/f'') = (0, Some ''f'', Some ''/d'')"
    by (rule parse_example)
  have look0: "\<not> DERR (fst (dfs_lookup (?engs 0) ''/d'' {O_RDWR}))"
    by (simp add: example_engine_def)
  have peer: "0 < (2::nat) \<and>
      parse_filename (?envs 2) (Some ''/d/f'') = (0, Some ''f'', Some ''/d'') \<and>
      \<not> DERR (fst (dfs_lookup (?engs 2) ''/d'' {O_RDWR}))"
    by (simp add: parse_example example_engine_def)
  have rest: "(\<forall>r<3. parse_filename (?envs r) (Some ''/d/f'') = (0, Some ''f'', Some ''/d'') \<and>
                  \<not> DERR (fst (dfs_lookup (?engs r) ''/d'' {O_RDWR}))) \<and>
          \<not> DERR (fst (dfs_open (?engs 0) (snd (dfs_lookup (?engs 0) ''/d'' {O_RDWR})) ''f''
                (S_IFREG OR mode example_param) {O_CREAT, O_RDWR, O_EXCL} DAOS_OC_LARGE_RW))"
    by (simp add: parse_example example_engine_def)
  have r: "0 < (2::nat) \<and> (2::nat) < 3" by simp
  note t = DFS_Create_one_creator
      [where env = "\<lambda>r. ok_env ''/w''" and eng = "\<lambda>r. example_engine 0 0",
       OF N shared parse0 look0]
  note released = t [THEN conjunct2, THEN conjunct2, THEN conjunct2, rule_format, OF rest]
  from t [THEN conjunct1]
    t [THEN conjunct2, THEN conjunct2, THEN conjunct1, rule_format, OF peer]
    released [THEN conjunct1] released [THEN conjunct2, rule_format, OF r]
  show ?thesis by (simp add: example_engine_def example_param_def release_def)
qed

text \<open>C1 as stated fails: when the parent directory does not exist the coordinator's
  lookup fails, the function returns \<open>NULL\<close> before the branch, and the run issues
  no create at all.\<close>

theorem DFS_Create_no_parent_no_create:
  "DFS_Create_run 2 (\<lambda>r. ok_env ''/w'') (\<lambda>r. no_parent_engine) (Some ''/d/f'') example_param =
     [([Lookup_call ''/d'' {O_RDWR}], Inr None), ([Lookup_call ''/d'' {O_RDWR}], Inr None)] \<and>
   filter is_create (concat (map fst
     (DFS_Create_run 2 (\<lambda>r. ok_env ''/w'') (\<lambda>r. no_parent_engine) (Some ''/d/f'')
        example_param))) = []"
proof -
  have w: "DFS_Create r (ok_env ''/w'') no_parent_engine b (Some ''/d/f'') example_param =
             ([Lookup_call ''/d'' {O_RDWR}], Inr None)" for r b
    by (simp add: DFS_Create_def parse_example no_parent_engine_def example_engine_def
          DERR_def release_def)
  have "DFS_Create_run 2 (\<lambda>r. ok_env ''/w'') (\<lambda>r. no_parent_engine) (Some ''/d/f'')
          example_param =
     [([Lookup_call ''/d'' {O_RDWR}], Inr None), ([Lookup_call ''/d'' {O_RDWR}], Inr None)]"
    by (simp add: DFS_Create_run_def Let_def w upt_rec numeral_2_eq_2)
  then show ?thesis by simp
qed

text \<open>What the amended statement leaves open: a create that fails (the file exists
  already, say) takes the coordinator to \<open>out\<close> before \<open>MPI_Barrier\<close>, so the
  other worker stays in the barrier and never opens.\<close>

lemma DFS_Create_failed_create_blocks_peers:
  "DFS_Create_run 2 (\<lambda>r. ok_env ''/w'') (\<lambda>r. create_fails_engine) (Some ''/d/f'')
     example_param =
     [([Lookup_call ''/d'' {O_RDWR},
        Open_call (Some 7) ''f'' (S_IFREG OR 420) {O_CREAT, O_RDWR, O_EXCL} DAOS_OC_LARGE_RW,
        Release_call 7], Inr None),
      ([Lookup_call ''/d'' {O_RDWR}, Barrier_call], Inl Blocked_forever)]"
proof -
  have c: "DFS_Create 0 (ok_env ''/w'') create_fails_engine b (Some ''/d/f'') example_param =
      ([Lookup_call ''/d'' {O_RDWR},
        Open_call (Some 7) ''f'' (S_IFREG OR 420) {O_CREAT, O_RDWR, O_EXCL} DAOS_OC_LARGE_RW,
        Release_call 7], Inr None)" for b
    by (simp add: DFS_Create_def parse_example create_fails_engine_def example_engine_def
          example_param_def DERR_def release_def)
  have p: "DFS_Create (Suc 0) (ok_env ''/w'') create_fails_engine Blocked (Some ''/d/f'')
             example_param =
      ([Lookup_call ''/d'' {O_RDWR}, Barrier_call], Inl Blocked_forever)"
    by (simp add: DFS_Create_def parse_example create_fails_engine_def example_engine_def
          example_param_def DERR_def MPI_CHECK_def)
  show ?thesis
    by (simp add: DFS_Create_run_def Let_def c p reaches_barrier_def upt_rec numeral_2_eq_2)
qed

subsection \<open>DFS_Access\<close>

text \<open>C10. When the path resolves to the leaf name \<open>.\<close>, \<open>DFS_Access\<close>
  looks the parent up and, unless the lookup failed, stats the parent itself: the leaf
  passed to \<open>dfs_stat\<close> is \<open>NULL\<close>. It returns 0 exactly when the lookup did
  not fail (its status is not negative) and that stat returned 0, and \<open>-1\<close>
  otherwise.\<close>

theorem DFS_Access_dot_leaf:
  assumes "parse_filename env path = (0, Some ''.'', Some d)"
  shows "fst (DFS_Access env eng path) =
           (if DERR (fst (dfs_lookup eng d {O_RDWR}))
            then [Lookup_call d {O_RDWR}] @ release (snd (dfs_lookup eng d {O_RDWR}))
            else [Lookup_call d {O_RDWR}, Stat_call (snd (dfs_lookup eng d {O_RDWR})) None]
                 @ release (snd (dfs_lookup eng d {O_RDWR}))) \<and>
         snd (DFS_Access env eng path) =
           Inr (if \<not> DERR (fst (dfs_lookup eng d {O_RDWR})) \<and>
                   dfs_stat eng (snd (dfs_lookup eng d {O_RDWR})) None = 0
                then 0 else - 1)"
  using assms by (simp add: DFS_Access_def Let_def case_prod_beta DERR_def)

theorem DFS_Access_dot_leaf_witness:
  "parse_filename (ok_env ''/w'') (Some ''/d/.'') = (0, Some ''.'', Some ''/d'') \<and>
   DFS_Access (ok_env ''/w'') (example_engine 0 0) (Some ''/d/.'') =
     ([Lookup_call ''/d'' {O_RDWR}, Stat_call (Some 7) None, Release_call 7], Inr 0)"
proof -
  have p: "parse_filename (ok_env ''/w'') (Some ''/d/.'') = (0, Some ''.'', Some ''/d'')"
    by (simp add: parse_filename_def ok_env_def basename_def dirname_def strip_slashes_def
          resolve_cont_name_def first_char_def)
  from DFS_Access_dot_leaf [OF p, of "example_engine 0 0"] p
  show ?thesis
    by (simp add: example_engine_def release_def DERR_def prod_eq_iff)
qed

subsection \<open>DFS_GetFileSize\<close>

lemma MPI_Allreduce_sum: "MPI_Allreduce MPI_SUM vs = sum_list vs"
  by (induction MPI_SUM vs rule: MPI_Allreduce.induct) (simp_all add: combine_def)

lemma MPI_Allreduce_min:
  "vs \<noteq> [] \<Longrightarrow> MPI_Allreduce MPI_MIN vs \<in> set vs \<and>
                 (\<forall>v\<in>set vs. MPI_Allreduce MPI_MIN vs \<le>s v)"
proof (induction MPI_MIN vs rule: MPI_Allreduce.induct)
  case 1
  then show ?case by simp
next
  case (2 v)
  then show ?case by simp
next
  case (3 v w vs)
  define m where "m = MPI_Allreduce MPI_MIN (w # vs)"
  from 3 have ih: "m \<in> set (w # vs)" "\<forall>x\<in>set (w # vs). m \<le>s x" by (simp_all add: m_def)
  show ?case
  proof (cases "m <s v")
    case True
    then have "MPI_Allreduce MPI_MIN (v # w # vs) = m" by (simp add: combine_def m_def)
    moreover have "m \<le>s v" using True by (rule signed.less_imp_le)
    ultimately show ?thesis using ih by simp
  next
    case False
    then have r: "MPI_Allreduce MPI_MIN (v # w # vs) = v" by (simp add: combine_def m_def)
    from False have "v \<le>s m" by (simp add: signed.not_less)
    then have "\<forall>x\<in>set (w # vs). v \<le>s x" using ih(2) by (blast intro: signed.order_trans)
    then show ?thesis unfolding r by simp
  qed
qed

lemma MPI_Allreduce_max:
  "vs \<noteq> [] \<Longrightarrow> MPI_Allreduce MPI_MAX vs \<in> set vs \<and>
                 (\<forall>v\<in>set vs. v \<le>s MPI_Allreduce MPI_MAX vs)"
proof (induction MPI_MAX vs rule: MPI_Allreduce.induct)
  case 1
  then show ?case by simp
next
  case (2 v)
  then show ?case by simp
next
  case (3 v w vs)
  define m where "m = MPI_Allreduce MPI_MAX (w # vs)"
  from 3 have ih: "m \<in> set (w # vs)" "\<forall>x\<in>set (w # vs). x \<le>s m" by (simp_all add: m_def)
  show ?case
  proof (cases "v <s m")
    case True
    then have "MPI_Allreduce MPI_MAX (v # w # vs) = m" by (simp add: combine_def m_def)
    moreover have "v \<le>s m" using True by (rule signed.less_imp_le)
    ultimately show ?thesis using ih by simp
  next
    case False
    then have r: "MPI_Allreduce MPI_MAX (v # w # vs) = v" by (simp add: combine_def m_def)
    from False have "m \<le>s v" by (simp add: signed.not_less)
    then have "\<forall>x\<in>set (w # vs). x \<le>s v" using ih(2) by (blast intro: signed.order_trans)
    then show ?thesis unfolding r by simp
  qed
qed

lemma MPI_Allreduce_min_eq_max:
  assumes "vs \<noteq> []"
  shows "MPI_Allreduce MPI_MIN vs = MPI_Allreduce MPI_MAX vs \<longleftrightarrow> (\<forall>v\<in>set vs. v = hd vs)"
proof
  assume e: "MPI_Allreduce MPI_MIN vs = MPI_Allreduce MPI_MAX vs"
  have "v = MPI_Allreduce MPI_MIN vs" if "v \<in> set vs" for v
  proof -
    from that MPI_Allreduce_min [OF assms] have "MPI_Allreduce MPI_MIN vs \<le>s v" by simp
    moreover from that MPI_Allreduce_max [OF assms] e have "v \<le>s MPI_Allreduce MPI_MIN vs"
      by simp
    ultimately show ?thesis by (rule signed.order_antisym [symmetric])
  qed
  moreover have "hd vs \<in> set vs" using assms by simp
  ultimately show "\<forall>v\<in>set vs. v = hd vs" by metis
next
  assume a: "\<forall>v\<in>set vs. v = hd vs"
  from MPI_Allreduce_min [OF assms] a have "MPI_Allreduce MPI_MIN vs = hd vs" by simp
  moreover from MPI_Allreduce_max [OF assms] a have "MPI_Allreduce MPI_MAX vs = hd vs" by simp
  ultimately show "MPI_Allreduce MPI_MIN vs = MPI_Allreduce MPI_MAX vs" by simp
qed

lemma MPI_Allreduce_min_unat:
  assumes "vs \<noteq> []" and "\<forall>v\<in>set vs. 0 \<le>s v"
  shows "unat (MPI_Allreduce MPI_MIN vs) = Min (unat ` set vs)"
proof -
  note m = MPI_Allreduce_min [OF assms(1)]
  have "Min (unat ` set vs) = unat (MPI_Allreduce MPI_MIN vs)"
  proof (rule Min_eqI)
    show "finite (unat ` set vs)" by simp
    show "unat (MPI_Allreduce MPI_MIN vs) \<in> unat ` set vs" using m by simp
    fix y assume "y \<in> unat ` set vs"
    then obtain v where v: "v \<in> set vs" "y = unat v" by auto
    with m have "MPI_Allreduce MPI_MIN vs \<le>s v" by simp
    moreover have "0 \<le>s MPI_Allreduce MPI_MIN vs" using m assms(2) by simp
    moreover have "0 \<le>s v" using v assms(2) by simp
    ultimately show "unat (MPI_Allreduce MPI_MIN vs) \<le> y" using v(2) by (simp add: sle_unat)
  qed
  then show ?thesis by simp
qed

lemma DFS_GetFileSize_contribution:
  assumes "fst (dfs_lookup eng path {O_RDONLY}) = 0"
    and "dfs_get_size eng (snd (dfs_lookup eng path {O_RDONLY})) = (0, s)"
  shows "contribution (fst (DFS_GetFileSize rank eng (\<lambda>op v. Delivered v) test path)) = Some s"
proof -
  have r: "contribution (release_unchecked obj @ es) = contribution es" for obj es
    by (cases obj) (simp_all add: release_unchecked_def)
  show ?thesis using assms
    by (simp add: DFS_GetFileSize_def Let_def MPI_CHECK_def case_prod_beta r)
qed

lemma DFS_GetFileSize_delivered:
  assumes "fst (dfs_lookup eng path {O_RDONLY}) = 0"
    and "dfs_get_size eng (snd (dfs_lookup eng path {O_RDONLY})) = (0, s)"
  shows "snd (DFS_GetFileSize rank eng (\<lambda>op v. Delivered (R op)) test path) =
           Inr (if filePerProc test = TRUE then R MPI_SUM
                else if R MPI_MIN \<noteq> R MPI_MAX then R MPI_MIN else s)"
    and "Warn ''inconsistent file size by different tasks''
           \<in> set (fst (DFS_GetFileSize rank eng (\<lambda>op v. Delivered (R op)) test path)) \<longleftrightarrow>
         filePerProc test \<noteq> TRUE \<and> R MPI_MIN \<noteq> R MPI_MAX \<and> rank = 0"
proof -
  have w: "Warn m \<notin> set (release_unchecked obj)" for m obj
    by (cases obj) (simp_all add: release_unchecked_def)
  show "snd (DFS_GetFileSize rank eng (\<lambda>op v. Delivered (R op)) test path) =
           Inr (if filePerProc test = TRUE then R MPI_SUM
                else if R MPI_MIN \<noteq> R MPI_MAX then R MPI_MIN else s)"
    using assms by (simp add: DFS_GetFileSize_def Let_def MPI_CHECK_def case_prod_beta)
  show "Warn ''inconsistent file size by different tasks''
           \<in> set (fst (DFS_GetFileSize rank eng (\<lambda>op v. Delivered (R op)) test path)) \<longleftrightarrow>
         filePerProc test \<noteq> TRUE \<and> R MPI_MIN \<noteq> R MPI_MAX \<and> rank = 0"
    using assms by (simp add: DFS_GetFileSize_def Let_def MPI_CHECK_def case_prod_beta w)
qed

lemma DFS_GetFileSize_run_nth:
  assumes "r < length sizes"
    and "\<forall>q<length sizes. fst (dfs_lookup (eng q) path {O_RDONLY}) = 0 \<and>
           dfs_get_size (eng q) (snd (dfs_lookup (eng q) path {O_RDONLY})) = (0, sizes ! q)"
  shows "DFS_GetFileSize_run (length sizes) eng test path ! r =
           DFS_GetFileSize r (eng r) (\<lambda>op v. Delivered (MPI_Allreduce op sizes)) test path"
proof -
  let ?sent = "map (\<lambda>r. contribution
                   (fst (DFS_GetFileSize r (eng r) (\<lambda>op v. Delivered v) test path)))
                 [0..<length sizes]"
  have "?sent = map Some sizes"
    using assms(2) by (intro nth_equalityI) (simp_all add: DFS_GetFileSize_contribution)
  then have "list_all (\<lambda>s. s \<noteq> None) ?sent" and "map the ?sent = sizes"
    by (simp_all add: list_all_iff comp_def)
  then show ?thesis using assms(1)
    by (simp add: DFS_GetFileSize_run_def Let_def)
qed

text \<open>C5. When every worker finds the file and reads a size, each worker of the run
  returns the same aggregate: with per-process files (\<open>filePerProc == TRUE\<close>) the
  sum of the sizes, with a shared file their minimum. The warning is logged exactly in
  the shared case when not all sizes are equal, and then by worker 0 only; when all
  sizes are equal the value returned is that size. The minimum is taken as
  \<open>MPI_LONG_LONG_INT\<close>, that is signed; for sizes below \<open>2^63\<close> it is the
  least size.\<close>

theorem DFS_GetFileSize_aggregate:
  assumes "sizes \<noteq> []"
    and "\<forall>q<length sizes. fst (dfs_lookup (eng q) path {O_RDONLY}) = 0 \<and>
           dfs_get_size (eng q) (snd (dfs_lookup (eng q) path {O_RDONLY})) = (0, sizes ! q)"
  shows "(\<forall>r<length sizes.
           snd (DFS_GetFileSize_run (length sizes) eng test path ! r) =
             Inr (if filePerProc test = TRUE then sum_list sizes
                  else MPI_Allreduce MPI_MIN sizes) \<and>
           (Warn ''inconsistent file size by different tasks''
              \<in> set (fst (DFS_GetFileSize_run (length sizes) eng test path ! r)) \<longleftrightarrow>
            filePerProc test \<noteq> TRUE \<and> (\<exists>v\<in>set sizes. v \<noteq> hd sizes) \<and> r = 0)) \<and>
         MPI_Allreduce MPI_MIN sizes \<in> set sizes \<and>
         (\<forall>v\<in>set sizes. MPI_Allreduce MPI_MIN sizes \<le>s v) \<and>
         ((\<forall>v\<in>set sizes. 0 \<le>s v) \<longrightarrow>
            unat (MPI_Allreduce MPI_MIN sizes) = Min (unat ` set sizes))"
proof -
  have m: "MPI_Allreduce MPI_MIN sizes \<in> set sizes \<and>
         (\<forall>v\<in>set sizes. MPI_Allreduce MPI_MIN sizes \<le>s v) \<and>
         ((\<forall>v\<in>set sizes. 0 \<le>s v) \<longrightarrow>
            unat (MPI_Allreduce MPI_MIN sizes) = Min (unat ` set sizes))"
    using MPI_Allreduce_min [OF assms(1)] MPI_Allreduce_min_unat [OF assms(1)] by blast
  have "snd (DFS_GetFileSize_run (length sizes) eng test path ! r) =
             Inr (if filePerProc test = TRUE then sum_list sizes
                  else MPI_Allreduce MPI_MIN sizes) \<and>
           (Warn ''inconsistent file size by different tasks''
              \<in> set (fst (DFS_GetFileSize_run (length sizes) eng test path ! r)) \<longleftrightarrow>
            filePerProc test \<noteq> TRUE \<and> (\<exists>v\<in>set sizes. v \<noteq> hd sizes) \<and> r = 0)"
    if r: "r < length sizes" for r
  proof -
    from assms(2) r have l: "fst (dfs_lookup (eng r) path {O_RDONLY}) = 0"
      and g: "dfs_get_size (eng r) (snd (dfs_lookup (eng r) path {O_RDONLY})) = (0, sizes ! r)"
      by simp_all
    note d = DFS_GetFileSize_delivered [OF l g, of r "\<lambda>op. MPI_Allreduce op sizes" test]
    note e = MPI_Allreduce_min_eq_max [OF assms(1)]
    have same: "sizes ! r = MPI_Allreduce MPI_MIN sizes"
      if "MPI_Allreduce MPI_MIN sizes = MPI_Allreduce MPI_MAX sizes"
    proof -
      from that e have a: "\<forall>v\<in>set sizes. v = hd sizes" by simp
      moreover have "sizes ! r \<in> set sizes" using r by simp
      moreover have "MPI_Allreduce MPI_MIN sizes \<in> set sizes"
        using MPI_Allreduce_min [OF assms(1)] by simp
      ultimately show ?thesis by metis
    qed
    have 1: "snd (DFS_GetFileSize_run (length sizes) eng test path ! r) =
             Inr (if filePerProc test = TRUE then sum_list sizes
                  else MPI_Allreduce MPI_MIN sizes)"
      using d(1) same
      by (simp only: DFS_GetFileSize_run_nth [OF r assms(2)])
         (auto simp: MPI_Allreduce_sum)
    have 2: "Warn ''inconsistent file size by different tasks''
              \<in> set (fst (DFS_GetFileSize_run (length sizes) eng test path ! r)) \<longleftrightarrow>
            filePerProc test \<noteq> TRUE \<and> (\<exists>v\<in>set sizes. v \<noteq> hd sizes) \<and> r = 0"
      using d(2) e
      by (simp only: DFS_GetFileSize_run_nth [OF r assms(2)]) auto
    from 1 2 show ?thesis by simp
  qed
  with m show ?thesis by blast
qed

theorem DFS_GetFileSize_aggregate_witness:
  "snd (DFS_GetFileSize_run 3 (sized_engines [10, 20, 30])
          (example_param\<lparr>filePerProc := 1\<rparr>) ''/d/f'' ! 1) = Inr 60 \<and>
   snd (DFS_GetFileSize_run 3 (sized_engines [100, 100, 100]) example_param ''/d/f'' ! 2) =
     Inr 100 \<and>
   Warn ''inconsistent file size by different tasks''
     \<notin> set (fst (DFS_GetFileSize_run 3 (sized_engines [100, 100, 100]) example_param
                    ''/d/f'' ! 0)) \<and>
   snd (DFS_GetFileSize_run 3 (sized_engines [100, 100, 90]) example_param ''/d/f'' ! 1) =
     Inr 90 \<and>
   Warn ''inconsistent file size by different tasks''
     \<in> set (fst (DFS_GetFileSize_run 3 (sized_engines [100, 100, 90]) example_param
                    ''/d/f'' ! 0))"
proof -
  have ok: "\<forall>q<length xs. fst (dfs_lookup (sized_engines xs q) ''/d/f'' {O_RDONLY}) = 0 \<and>
           dfs_get_size (sized_engines xs q)
             (snd (dfs_lookup (sized_engines xs q) ''/d/f'' {O_RDONLY})) = (0, xs ! q)"
    for xs by (simp add: sized_engines_def example_engine_def)
  note a = DFS_GetFileSize_aggregate [where sizes = "[10, 20, 30]"
      and test = "example_param\<lparr>filePerProc := 1\<rparr>", OF _ ok, THEN conjunct1, rule_format]
  note b = DFS_GetFileSize_aggregate [where sizes = "[100, 100, 100]"
      and test = example_param, OF _ ok, THEN conjunct1, rule_format]
  note c = DFS_GetFileSize_aggregate [where sizes = "[100, 100, 90]"
      and test = example_param, OF _ ok, THEN conjunct1, rule_format]
  from a [of 1] b [of 2] b [of 0] c [of 1] c [of 0]
  show ?thesis
    by (simp add: example_param_def TRUE_def combine_def word_sless_alt numeral_3_eq_3)
qed

subsection \<open>DFS_Finalize\<close>

lemma DCHECK_None [simp]: "DCHECK rc msg = None \<longleftrightarrow> \<not> rc < 0"
  by (simp add: DCHECK_def)

lemma DFS_Finalize_sent:
  assumes "\<not> dfs_umount eng < 0" and "\<not> daos_cont_close eng < 0"
  shows "sent_value (fst (DFS_Finalize rank destroy eng bcast)) =
           Some (if rank = 0 \<and> destroy \<noteq> 0 then daos_cont_destroy eng
                 else daos_cont_close eng)"
  using assms
  by (auto simp: DFS_Finalize_def Let_def DCHECK_def split: collective.splits)

lemma DFS_Finalize_run_nth:
  assumes "r < N"
    and "\<forall>q<N. \<not> dfs_umount (eng q) < 0 \<and> \<not> daos_cont_close (eng q) < 0"
    and "destroy \<noteq> 0"
  shows "DFS_Finalize_run N destroy eng ! r =
           DFS_Finalize r destroy (eng r) (\<lambda>v. Delivered (daos_cont_destroy (eng 0)))"
proof -
  let ?sent = "map (\<lambda>r. sent_value (fst (DFS_Finalize r destroy (eng r) Delivered))) [0..<N]"
  from assms(1) have N: "0 < N" by simp
  have s: "?sent ! q = Some (if q = 0 \<and> destroy \<noteq> 0 then daos_cont_destroy (eng q)
                 else daos_cont_close (eng q))" if "q < N" for q
    using that assms(2) by (simp add: DFS_Finalize_sent)
  have ne: "?sent \<noteq> []" using N by simp
  have "hd ?sent = ?sent ! 0" using ne by (simp add: hd_conv_nth del: map_is_Nil_conv)
  with s [OF N] assms(3) have h: "the (hd ?sent) = daos_cont_destroy (eng 0)" by simp
  have all: "list_all (\<lambda>s. s \<noteq> None) ?sent"
    using assms(2) by (simp add: list_all_iff DFS_Finalize_sent)
  show ?thesis
    using assms(1) ne all h
    by (simp add: DFS_Finalize_run_def Let_def del: map_is_Nil_conv)
qed

lemma DFS_Finalize_received:
  assumes "\<not> dfs_umount eng < 0" and "\<not> daos_cont_close eng < 0" and "d \<le> 0"
  shows "DFS_Finalize rank destroy eng (\<lambda>v. Delivered d) =
           ([Umount_call, Cont_close_call]
              @ (if rank = 0 \<and> destroy \<noteq> 0 then [Cont_destroy_call] else [])
              @ [Bcast_call (if rank = 0 \<and> destroy \<noteq> 0 then daos_cont_destroy eng
                             else daos_cont_close eng)]
              @ (if d \<noteq> 0 then [] else [Pool_disconnect_call, Fini_call]),
            if d \<noteq> 0 then Inl (DCHECK_exit d ''Failed to destroy container'')
            else if daos_fini eng < 0
              then Inl (DCHECK_exit (daos_fini eng) ''Failed to finalize DAOS'')
            else Inr ())"
  using assms
  by (auto simp: DFS_Finalize_def Let_def DCHECK_def)

text \<open>C7, as amended. With \<open>destroy\<close> set, when the unmount and the close of the
  container fail on no worker, so that every worker reaches the broadcast, and the
  coordinator's \<open>daos_cont_destroy\<close> returns a DAOS status (zero or negative): only
  the coordinator destroys, it broadcasts that status, and every worker acts on it in
  the same way. If the status is not zero every worker exits through \<open>DCHECK\<close>
  right after the broadcast, reporting that same status; if it is zero no worker exits
  there: each goes on to the pool disconnect and to \<open>daos_fini\<close>, and returns unless
  its own \<open>daos_fini\<close> fails.\<close>

theorem DFS_Finalize_destroy_status:
  assumes "destroy \<noteq> 0"
    and "\<forall>q<N. \<not> dfs_umount (eng q) < 0 \<and> \<not> daos_cont_close (eng q) < 0"
    and "daos_cont_destroy (eng 0) \<le> 0"
  shows "\<forall>r<N. DFS_Finalize_run N destroy eng ! r =
           ([Umount_call, Cont_close_call]
              @ (if r = 0 then [Cont_destroy_call] else [])
              @ [Bcast_call (if r = 0 then daos_cont_destroy (eng 0)
                             else daos_cont_close (eng r))]
              @ (if daos_cont_destroy (eng 0) \<noteq> 0 then []
                 else [Pool_disconnect_call, Fini_call]),
            if daos_cont_destroy (eng 0) \<noteq> 0
            then Inl (DCHECK_exit (daos_cont_destroy (eng 0)) ''Failed to destroy container'')
            else if daos_fini (eng r) < 0
              then Inl (DCHECK_exit (daos_fini (eng r)) ''Failed to finalize DAOS'')
            else Inr ())"
proof (intro allI impI)
  fix r assume r: "r < N"
  from assms(2) r have "\<not> dfs_umount (eng r) < 0" "\<not> daos_cont_close (eng r) < 0" by simp_all
  from DFS_Finalize_received [OF this assms(3), of r destroy] assms(1)
  show "DFS_Finalize_run N destroy eng ! r =
           ([Umount_call, Cont_close_call]
              @ (if r = 0 then [Cont_destroy_call] else [])
              @ [Bcast_call (if r = 0 then daos_cont_destroy (eng 0)
                             else daos_cont_close (eng r))]
              @ (if daos_cont_destroy (eng 0) \<noteq> 0 then []
                 else [Pool_disconnect_call, Fini_call]),
            if daos_cont_destroy (eng 0) \<noteq> 0
            then Inl (DCHECK_exit (daos_cont_destroy (eng 0)) ''Failed to destroy container'')
            else if daos_fini (eng r) < 0
              then Inl (DCHECK_exit (daos_fini (eng r)) ''Failed to finalize DAOS'')
            else Inr ())"
    by (simp only: DFS_Finalize_run_nth [OF r assms(2) assms(1)]) auto
qed

theorem DFS_Finalize_destroy_status_witness:
  "DFS_Finalize_run 3 1 (\<lambda>r. example_engine 0 (- 1005)) ! 0 =
     ([Umount_call, Cont_close_call, Cont_destroy_call, Bcast_call (- 1005)],
      Inl (DCHECK_exit (- 1005) ''Failed to destroy container'')) \<and>
   DFS_Finalize_run 3 1 (\<lambda>r. example_engine 0 (- 1005)) ! 2 =
     ([Umount_call, Cont_close_call, Bcast_call 0],
      Inl (DCHECK_exit (- 1005) ''Failed to destroy container'')) \<and>
   DFS_Finalize_run 3 1 (\<lambda>r. example_engine 0 0) ! 2 =
     ([Umount_call, Cont_close_call, Bcast_call 0, Pool_disconnect_call, Fini_call], Inr ())"
proof -
  let ?E = "\<lambda>r::nat. example_engine 0 (- 1005)"
  let ?Z = "\<lambda>r::nat. example_engine 0 0"
  have d: "(1::int) \<noteq> 0" by simp
  have ok: "\<forall>q<3. \<not> dfs_umount (?E q) < 0 \<and> \<not> daos_cont_close (?E q) < 0"
    by (simp add: example_engine_def)
  have okz: "\<forall>q<3. \<not> dfs_umount (?Z q) < 0 \<and> \<not> daos_cont_close (?Z q) < 0"
    by (simp add: example_engine_def)
  have s: "daos_cont_destroy (?E 0) \<le> 0" and sz: "daos_cont_destroy (?Z 0) \<le> 0"
    by (simp_all add: example_engine_def)
  have r0: "(0::nat) < 3" and r2: "(2::nat) < 3" by simp_all
  note t = DFS_Finalize_destroy_status
      [where eng = "\<lambda>r. example_engine 0 (- 1005)", OF d ok s, rule_format]
  note tz = DFS_Finalize_destroy_status
      [where eng = "\<lambda>r. example_engine 0 0", OF d okz sz, rule_format]
  from t [OF r0] t [OF r2] tz [OF r2] show ?thesis by (simp add: example_engine_def)
qed

text \<open>C7 as stated fails: when the unmount fails on worker 1 that worker exits before
  the broadcast, although the destroy status is zero; the coordinator, which has
  destroyed the container, is left in the broadcast, and the workers do not end alike.\<close>

theorem DFS_Finalize_umount_failure:
  "DFS_Finalize_run 2 1 umount_fails_at_1 =
     [([Umount_call, Cont_close_call, Cont_destroy_call, Bcast_call 0], Inl Blocked_forever),
      ([Umount_call], Inl (DCHECK_exit (- 1) ''Failed to umount DFS namespace''))]"
  by (simp add: DFS_Finalize_run_def DFS_Finalize_def Let_def DCHECK_def umount_fails_at_1_def
        example_engine_def upt_rec numeral_2_eq_2)

end
